theory Spec2Isabelle
  imports Complex_Main "HOL-Library.Sublist"
begin

text \<open>
  The retrieval-augmented pipeline of the repository: \<open>src/index_docs.py\<close> extracts,
  chunks, embeds and stores the documents; \<open>app.py\<close> (the Streamlit application) and
  \<open>src/rag_query.py\<close> (the command-line chatbot) each retrieve the stored chunks closest
  to a question and have the language model answer from them. Everything outside the
  repository (the PDF reader, the text splitter, the embedding model, the HTTP client, the
  database function, the language model) enters the functions below as a parameter that
  returns a value or an exception.
\<close>

section \<open>Python strings\<close>

text \<open>
  A Python \<open>str\<close> is a sequence of code points. The model keeps the code points below 256
  (ASCII and Latin-1), one per \<^typ>\<open>char\<close>; every literal of the three source files lies in
  that range. On these code points \<open>str.lower()\<close> maps one character to one character:
  \<open>A\<close>..\<open>Z\<close> and the Latin-1 capitals \<open>0xC0\<close>..\<open>0xDE\<close> (the multiplication sign \<open>0xD7\<close>
  apart) move up by 32, every other code point stays.
\<close>

definition lower_char :: "char \<Rightarrow> char" where
  "lower_char c =
     (let n = (of_char c :: nat)
      in if 65 \<le> n \<and> n \<le> 90 then char_of (n + 32)
         else if 192 \<le> n \<and> n \<le> 222 \<and> n \<noteq> 215 then char_of (n + 32)
         else c)"

definition lower :: "string \<Rightarrow> string" where
  "lower s = map lower_char s"

text \<open>\<open>kw in s\<close> on strings: \<open>kw\<close> occurs in \<open>s\<close> as a contiguous run.\<close>

fun py_in :: "string \<Rightarrow> string \<Rightarrow> bool" where
  "py_in kw [] = (kw = [])"
| "py_in kw (c # cs) = (prefix kw (c # cs) \<or> py_in kw cs)"

text \<open>\<open>sep.join(xs)\<close>.\<close>

fun join :: "string \<Rightarrow> string list \<Rightarrow> string" where
  "join sep [] = []"
| "join sep [x] = x"
| "join sep (x # y # ys) = x @ sep @ join sep (y # ys)"

section \<open>Ingestion: \<open>src/index_docs.py\<close>\<close>

type_synonym vector = "real list"

record metadata =
  doenca :: string
  tema :: string

text \<open>
  The dictionary built for each chunk. The key \<open>embedding\<close> is absent until
  \<open>generate_embeddings\<close> stores it.
\<close>

record chunk =
  source :: string
  chunk_index :: nat
  content :: string
  metadata :: metadata
  embedding :: "vector option"

definition BATCH_SIZE :: nat where
  "BATCH_SIZE = 500"

definition Cancer_de_Estomago :: string where
  "Cancer_de_Estomago = ''C'' @ [CHR 0xE2] @ ''ncer de Est'' @ [CHR 0xF4] @ ''mago''"

definition Geral_Nao_Especificado :: string where
  "Geral_Nao_Especificado = ''Geral/N'' @ [CHR 0xE3] @ ''o Especificado''"

definition nutricao :: string where
  "nutricao = ''nutri'' @ [CHR 0xE7, CHR 0xE3] @ ''o''"

text \<open>
  \<open>chunk_text\<close>. The splitter is langchain's \<open>RecursiveCharacterTextSplitter\<close>, a library
  outside the repository: \<open>split_text chunk_size chunk_overlap text\<close> stands for
  \<open>RecursiveCharacterTextSplitter(chunk_size, chunk_overlap, len, False).split_text(text)\<close>.
\<close>

type_synonym splitter = "nat \<Rightarrow> nat \<Rightarrow> string \<Rightarrow> string list"

definition chunk_text :: "splitter \<Rightarrow> string \<Rightarrow> string \<Rightarrow> chunk list" where
  "chunk_text split_text text filename =
     (let chunks = split_text 500 50 text
      in map (\<lambda>(i, chunk).
           \<lparr> source = filename,
             chunk_index = i,
             content = chunk,
             metadata =
               \<lparr> doenca =
                   (if py_in ''diabetes'' (lower filename) then ''Diabetes''
                    else if py_in ''cancer'' (lower filename) \<or> py_in ''estomago'' (lower filename)
                      then Cancer_de_Estomago
                    else Geral_Nao_Especificado),
                 tema = nutricao \<rparr>,
             embedding = None \<rparr>)
         (enumerate 0 chunks))"

subsection \<open>Exceptions\<close>

text \<open>
  A raised Python exception is a value. The insertion loop tells \<open>requests\<close>' \<open>HTTPError\<close>
  (status code and response text) and \<open>RequestException\<close> from every other
  \<open>Exception\<close>; the other handlers catch \<open>Exception\<close> as a whole.
\<close>

datatype exn =
    HTTPError nat string
  | RequestException string
  | Exception string

subsection \<open>Extraction\<close>

text \<open>
  \<open>PdfReader(filepath)\<close> raises or gives the pages; \<open>page.extract_text()\<close> raises or gives
  a string or \<open>None\<close>.
\<close>

type_synonym page = "exn + string option"
type_synonym pdf_reader = "string \<Rightarrow> exn + page list"

fun extract_pages :: "page list \<Rightarrow> string \<Rightarrow> exn + string" where
  "extract_pages [] text = Inr text"
| "extract_pages (page # pages) text =
     (case page of
        Inl e \<Rightarrow> Inl e
      | Inr extracted \<Rightarrow>
          extract_pages pages (text @ (case extracted of None \<Rightarrow> [] | Some t \<Rightarrow> t)))"

definition extract_text_from_pdf :: "pdf_reader \<Rightarrow> string \<Rightarrow> string" where
  "extract_text_from_pdf PdfReader filepath =
     (case PdfReader filepath of
        Inl e \<Rightarrow> []
      | Inr pages \<Rightarrow>
          (case extract_pages pages [] of
             Inl e \<Rightarrow> []
           | Inr text \<Rightarrow> text))"

subsection \<open>Embeddings\<close>

text \<open>
  \<open>encode texts\<close> stands for loading the sentence-transformer model and encoding the
  batch; it is not inside a \<open>try\<close>, so what it raises leaves \<open>generate_embeddings\<close>.
  The loop stores \<open>chunks_data[i]['embedding']\<close>; an index past the end raises
  \<open>IndexError\<close>.
\<close>

type_synonym encoder = "string list \<Rightarrow> exn + vector list"

fun store_embeddings :: "nat \<Rightarrow> vector list \<Rightarrow> chunk list \<Rightarrow> exn + chunk list" where
  "store_embeddings i [] chunks_data = Inr chunks_data"
| "store_embeddings i (e # es) chunks_data =
     (if i < length chunks_data
      then store_embeddings (Suc i) es
             (chunks_data[i := (chunks_data ! i)\<lparr>embedding := Some e\<rparr>])
      else Inl (Exception ''IndexError''))"

definition generate_embeddings :: "encoder \<Rightarrow> chunk list \<Rightarrow> exn + chunk list" where
  "generate_embeddings encode chunks_data =
     (case encode (map content chunks_data) of
        Inl e \<Rightarrow> Inl e
      | Inr embeddings \<Rightarrow> store_embeddings 0 embeddings chunks_data)"

subsection \<open>Bulk insertion\<close>

text \<open>
  \<open>post n payload\<close> is the body of the \<open>try\<close> for the \<open>n\<close>-th request (counted from 0):
  \<open>requests.post\<close> followed by \<open>raise_for_status\<close>. It gives the status code of an
  accepted batch, or the exception raised. The function returns nothing in Python; the
  model returns what it logs at the end (\<open>success_count\<close> of \<open>total_records\<close>, as a
  complete or as a partial indexing) and the payloads it sent, in order.
\<close>

type_synonym poster = "nat \<Rightarrow> chunk list \<Rightarrow> exn + nat"

record insert_report =
  success_count :: nat
  total_records :: nat
  complete :: bool
  posted :: "chunk list list"

function insert_batches ::
  "poster \<Rightarrow> chunk list \<Rightarrow> nat \<Rightarrow> nat \<Rightarrow> chunk list list \<Rightarrow> nat \<times> chunk list list" where
  "insert_batches post chunks_data i count sent =
     (if i < length chunks_data
      then (case post (i div BATCH_SIZE) (take BATCH_SIZE (drop i chunks_data)) of
              Inr status \<Rightarrow>
                insert_batches post chunks_data (i + BATCH_SIZE)
                  (count + length (take BATCH_SIZE (drop i chunks_data)))
                  (sent @ [take BATCH_SIZE (drop i chunks_data)])
            | Inl e \<Rightarrow> (count, sent @ [take BATCH_SIZE (drop i chunks_data)]))
      else (count, sent))"
  by pat_completeness auto
termination
  by (relation "measure (\<lambda>(post, chunks_data, i, count, sent). length chunks_data - i)")
     (auto simp: BATCH_SIZE_def)

definition insert_data_to_supabase_api :: "poster \<Rightarrow> chunk list \<Rightarrow> insert_report" where
  "insert_data_to_supabase_api post chunks_data =
     (case insert_batches post chunks_data 0 0 [] of
        (count, sent) \<Rightarrow>
          \<lparr> success_count = count, total_records = length chunks_data,
            complete = (count = length chunks_data), posted = sent \<rparr>)"

subsection \<open>The indexing run\<close>

record indexer =
  SUPABASE_URL :: "string option"
  SUPABASE_SERVICE_KEY :: "string option"
  docs_dir_exists :: bool
  listdir :: "string list"
  PdfReader :: pdf_reader
  split_text :: splitter
  encode :: encoder
  post :: poster

definition DOCS_DIR :: string where
  "DOCS_DIR = ''docs''"

definition path_join :: "string \<Rightarrow> string \<Rightarrow> string" where
  "path_join dir name = dir @ ''/'' @ name"

text \<open>The \<open>for filename in pdf_files\<close> loop, with \<open>total_chunks_data\<close> as accumulator.\<close>

fun process_files :: "indexer \<Rightarrow> string list \<Rightarrow> chunk list \<Rightarrow> exn + chunk list" where
  "process_files ix [] total_chunks_data = Inr total_chunks_data"
| "process_files ix (filename # rest) total_chunks_data =
     (let text = extract_text_from_pdf (PdfReader ix) (path_join DOCS_DIR filename)
      in if text \<noteq> []
         then (case generate_embeddings (encode ix) (chunk_text (split_text ix) text filename) of
                 Inl e \<Rightarrow> Inl e
               | Inr chunks_with_embeddings \<Rightarrow>
                   process_files ix rest (total_chunks_data @ chunks_with_embeddings))
         else process_files ix rest total_chunks_data)"

datatype run =
    Missing_Keys
  | Docs_Dir_Created
  | No_Pdf_Files
  | Nothing_To_Insert
  | Inserted insert_report

definition truthy :: "string option \<Rightarrow> bool" where
  "truthy v = (case v of None \<Rightarrow> False | Some s \<Rightarrow> s \<noteq> [])"

definition main :: "indexer \<Rightarrow> exn + run" where
  "main ix =
     (if \<not> truthy (SUPABASE_URL ix) \<or> \<not> truthy (SUPABASE_SERVICE_KEY ix) then Inr Missing_Keys
      else if \<not> docs_dir_exists ix then Inr Docs_Dir_Created
      else
        (let pdf_files = filter (\<lambda>f. suffix ''.pdf'' f) (listdir ix)
         in if pdf_files = [] then Inr No_Pdf_Files
            else (case process_files ix pdf_files [] of
                    Inl e \<Rightarrow> Inl e
                  | Inr total_chunks_data \<Rightarrow>
                      if total_chunks_data \<noteq> []
                      then Inr (Inserted (insert_data_to_supabase_api (post ix) total_chunks_data))
                      else Inr Nothing_To_Insert)))"

section \<open>Retrieval: \<open>get_relevant_chunks\<close> of \<open>app.py\<close> and of \<open>src/rag_query.py\<close>\<close>

text \<open>
  A row of \<open>response.data\<close>. The similarity is a Python float; the code only compares it
  with the literal \<open>0.75\<close>, a binary fraction, so the comparison of the floats is the
  comparison of the numbers they denote and the model keeps the number. Printing it with
  \<open>:.3f\<close> is left to a parameter \<open>fmt\<close>. A row carries the three fields the loop reads,
  as the interface of the service has them.
\<close>

record match =
  match_source :: string
  similarity :: real
  match_content :: string

record rpc_params =
  query_embedding :: vector
  match_threshold :: real
  match_count :: nat

text \<open>
  \<open>supabase.rpc(name, params).execute()\<close> raises or gives \<open>response.data\<close>;
  \<open>model_embedding.encode(query_text, normalize_embeddings=True).tolist()\<close> raises or gives
  the vector. Either handle is \<open>None\<close> when its initialisation failed. Each function
  returns its value (\<open>Inl\<close>: the exception that leaves it) and the remote calls it made.
\<close>

type_synonym rpc = "string \<Rightarrow> rpc_params \<Rightarrow> exn + match list"
type_synonym rpc_call = "string \<times> rpc_params"
type_synonym query_encoder = "string \<Rightarrow> exn + vector"

definition K_CHUNKS :: nat where
  "K_CHUNKS = 5"

definition content_with_source :: "(real \<Rightarrow> string) \<Rightarrow> match \<Rightarrow> string" where
  "content_with_source fmt m =
     ''[Fonte: '' @ match_source m @ '', Score: '' @ fmt (similarity m) @ ''] '' @ match_content m"

text \<open>The \<open>for match in response.data\<close> loop of \<open>app.py\<close>, lines 62 to 66.\<close>

fun app_collect :: "(real \<Rightarrow> string) \<Rightarrow> match list \<Rightarrow> string list \<Rightarrow> string list" where
  "app_collect fmt [] relevant_chunks = relevant_chunks"
| "app_collect fmt (m # ms) relevant_chunks =
     (if similarity m > 0.75
      then app_collect fmt ms (relevant_chunks @ [content_with_source fmt m])
      else app_collect fmt ms relevant_chunks)"

definition app_get_relevant_chunks ::
  "query_encoder option \<Rightarrow> rpc option \<Rightarrow> (real \<Rightarrow> string) \<Rightarrow> string
     \<Rightarrow> (exn + string list) \<times> rpc_call list" where
  "app_get_relevant_chunks model_embedding supabase fmt query_text =
     (case (model_embedding, supabase) of
        (Some encode_query, Some supabase_rpc) \<Rightarrow>
          (case encode_query query_text of
             Inl e \<Rightarrow> (Inr [], [])
           | Inr query_vector \<Rightarrow>
               (let params = \<lparr> query_embedding = query_vector, match_threshold = 0.5,
                                match_count = K_CHUNKS \<rparr>
                in case supabase_rpc ''match_documents'' params of
                     Inl e \<Rightarrow> (Inr [], [(''match_documents'', params)])
                   | Inr data \<Rightarrow>
                       (Inr (app_collect fmt data []), [(''match_documents'', params)])))
      | _ \<Rightarrow> (Inr [], []))"

text \<open>The loop of \<open>src/rag_query.py\<close>, lines 79 to 82: every row is kept.\<close>

fun rag_query_collect :: "(real \<Rightarrow> string) \<Rightarrow> match list \<Rightarrow> string list \<Rightarrow> string list" where
  "rag_query_collect fmt [] relevant_chunks = relevant_chunks"
| "rag_query_collect fmt (m # ms) relevant_chunks =
     rag_query_collect fmt ms (relevant_chunks @ [content_with_source fmt m])"

text \<open>In \<open>src/rag_query.py\<close> the query is encoded before the \<open>try\<close>.\<close>

definition rag_query_get_relevant_chunks ::
  "query_encoder option \<Rightarrow> rpc option \<Rightarrow> (real \<Rightarrow> string) \<Rightarrow> string
     \<Rightarrow> (exn + string list) \<times> rpc_call list" where
  "rag_query_get_relevant_chunks model_embedding supabase fmt query_text =
     (case (model_embedding, supabase) of
        (Some encode_query, Some supabase_rpc) \<Rightarrow>
          (case encode_query query_text of
             Inl e \<Rightarrow> (Inl e, [])
           | Inr query_vector \<Rightarrow>
               (let params = \<lparr> query_embedding = query_vector, match_threshold = 0.5,
                                match_count = K_CHUNKS \<rparr>
                in case supabase_rpc ''match_documents'' params of
                     Inl e \<Rightarrow> (Inr [], [(''match_documents'', params)])
                   | Inr data \<Rightarrow>
                       (Inr (rag_query_collect fmt data []), [(''match_documents'', params)])))
      | _ \<Rightarrow> (Inr [], []))"

subsection \<open>The similarity-search service\<close>

text \<open>
  Modelled from the spec: the remote function \<open>match_documents\<close> lives in the database and
  is missing from the sources. The spec (4.4, 6) has it return, ordered by descending
  similarity, at most \<open>match_count\<close> candidates whose similarity meets \<open>match_threshold\<close>.
  \<open>rows\<close> are the stored rows, each with its similarity to the query vector.
\<close>

definition match_documents :: "match list \<Rightarrow> real \<Rightarrow> nat \<Rightarrow> match list" where
  "match_documents rows threshold k =
     take k (sort_key (\<lambda>m. - similarity m) (filter (\<lambda>m. threshold \<le> similarity m) rows))"

text \<open>
  Modelled from the spec: a call to the service either fails (\<open>outage\<close> says when, and
  with which exception) or answers with \<open>match_documents\<close> on the stored rows, \<open>scored v\<close>
  being those rows with their similarity to the query vector \<open>v\<close>.
\<close>

definition search_service :: "(rpc_params \<Rightarrow> exn option) \<Rightarrow> (vector \<Rightarrow> match list) \<Rightarrow> rpc" where
  "search_service outage scored name params =
     (case outage params of
        Some e \<Rightarrow> Inl e
      | None \<Rightarrow>
          Inr (match_documents (scored (query_embedding params))
                 (match_threshold params) (match_count params)))"

section \<open>Generation: \<open>generate_rag_answer\<close> of \<open>app.py\<close> and of \<open>src/rag_query.py\<close>\<close>

record gen_request =
  model :: string
  contents :: string
  system_instruction :: string
  temperature :: real

text \<open>
  \<open>client_gemini.models.generate_content(...)\<close> followed by \<open>response.text\<close> raises or gives
  the text; the handle is \<open>None\<close> when the client was not initialised. The temperatures
  are the literals of the source, kept as decimal numbers.
\<close>

type_synonym llm = "gen_request \<Rightarrow> exn + string"

definition LLM_MODEL_NAME :: string where
  "LLM_MODEL_NAME = ''gemini-2.5-flash''"

definition context_separator :: string where
  "context_separator = [CHR 0x0A] @ ''---'' @ [CHR 0x0A]"

definition llm_error :: string where
  "llm_error = ''Erro ao gerar resposta com o LLM.''"

definition app_client_error :: string where
  "app_client_error = ''Erro: Cliente Gemini n'' @ [CHR 0xE3] @ ''o inicializado.''"

definition rag_query_client_error :: string where
  "rag_query_client_error =
     ''Erro: Cliente Gemini n'' @ [CHR 0xE3] @
     ''o inicializado. Verifique a chave API no .env.''"

definition app_rag_instruction :: string where
  "app_rag_instruction =
     ''Voc'' @ [CHR 0xEA] @ '' '' @ [CHR 0xE9] @ '' um assistente de Nutri'' @
     [CHR 0xE7, CHR 0xE3] @
     ''o especializado, chamado DiabetesGPT. Responda APENAS com base nos'' @
     '' documentos de contexto fornecidos. Se o contexto n'' @ [CHR 0xE3] @
     ''o for suficiente, diga: '' @ [CHR 0x27] @ ''Desculpe, n'' @ [CHR 0xE3] @
     ''o encontrei informa'' @ [CHR 0xE7, CHR 0xF5] @ ''es espec'' @ [CHR 0xED] @
     ''ficas nos documentos de diabetes fornecidos.'' @ [CHR 0x27] @ '' Inclua refer'' @
     [CHR 0xEA] @ ''ncias '' @ [CHR 0xE0] @ '' fonte original no final da frase relevante.''"

definition app_fallback_instruction :: string where
  "app_fallback_instruction =
     ''Voc'' @ [CHR 0xEA] @ '' '' @ [CHR 0xE9] @ '' um assistente de Nutri'' @
     [CHR 0xE7, CHR 0xE3] @ ''o e sa'' @ [CHR 0xFA] @ ''de. A busca RAG falhou. Responda '' @
     [CHR 0xE0] @ '' pergunta diretamente com seu conhecimento geral de forma informat'' @
     ''iva e profissional.''"

definition rag_query_instruction :: string where
  "rag_query_instruction =
     ''Voc'' @ [CHR 0xEA] @ '' '' @ [CHR 0xE9] @ '' um assistente de Nutri'' @
     [CHR 0xE7, CHR 0xE3] @ ''o especializado, chamado NutriRAG. Sua tarefa '' @ [CHR 0xE9] @
     '' responder a pergunta do usu'' @ [CHR 0xE1] @
     ''rio APENAS com base nos documentos de contexto fornecidos. Se o co'' @ ''ntexto n'' @
     [CHR 0xE3] @ ''o contiver informa'' @ [CHR 0xE7, CHR 0xF5] @
     ''es suficientes para responder '' @ [CHR 0xE0] @ '' pergunta, voc'' @ [CHR 0xEA] @
     '' deve dizer: '' @ [CHR 0x27] @ ''Desculpe, n'' @ [CHR 0xE3] @ ''o encontrei informa'' @
     [CHR 0xE7, CHR 0xF5] @ ''es relevantes nos documentos fornecidos.'' @ [CHR 0x27] @
     '' Mantenha a resposta concisa, profissional e inclua refer'' @ [CHR 0xEA] @ ''ncias '' @
     [CHR 0xE0] @ '' fonte original entre colchetes [Fonte: nome_do_arquivo] no final '' @
     ''da frase relevante.''"

text \<open>
  \<open>app.py\<close>: the answer text, the label \<open>source\<close> (\<open>RAG\<close>, \<open>FALLBACK\<close> or \<open>ERROR\<close>) and the
  generation calls made.
\<close>

definition app_generate_rag_answer ::
  "llm option \<Rightarrow> string \<Rightarrow> string list \<Rightarrow> (string \<times> string) \<times> gen_request list" where
  "app_generate_rag_answer client_gemini query_text relevant_chunks =
     (case client_gemini of
        None \<Rightarrow> ((app_client_error, ''ERROR''), [])
      | Some generate_content \<Rightarrow>
          (let context = join context_separator relevant_chunks;
               system_instruction =
                 (if relevant_chunks \<noteq> [] then app_rag_instruction else app_fallback_instruction);
               source = (if relevant_chunks \<noteq> [] then ''RAG'' else ''FALLBACK'');
               user_prompt =
                 ''Pergunta do Usu'' @ [CHR 0xE1] @ ''rio: '' @ query_text @
                 [CHR 0x0A, CHR 0x0A] @ ''Contexto (se RAG): '' @
                 (if relevant_chunks \<noteq> [] then context else ''N/A'');
               request =
                 \<lparr> model = LLM_MODEL_NAME,
                   contents = user_prompt,
                   system_instruction = system_instruction,
                   temperature = (if source = ''FALLBACK'' then 0.4 else 0.2) \<rparr>
           in case generate_content request of
                Inr text \<Rightarrow> ((text, source), [request])
              | Inl e \<Rightarrow> ((llm_error, ''ERROR''), [request])))"

text \<open>\<open>src/rag_query.py\<close>: the answer text alone, and the generation calls made.\<close>

definition rag_query_generate_rag_answer ::
  "llm option \<Rightarrow> string \<Rightarrow> string list \<Rightarrow> string \<times> gen_request list" where
  "rag_query_generate_rag_answer client_gemini query_text relevant_chunks =
     (case client_gemini of
        None \<Rightarrow> (rag_query_client_error, [])
      | Some generate_content \<Rightarrow>
          (let context = join context_separator relevant_chunks;
               user_prompt =
                 ''Contexto dos Documentos:'' @ [CHR 0x0A, CHR 0x0A] @ context @
                 [CHR 0x0A, CHR 0x0A] @ ''---Pergunta do Usu'' @ [CHR 0xE1] @ ''rio: '' @ query_text;
               request =
                 \<lparr> model = LLM_MODEL_NAME,
                   contents = user_prompt,
                   system_instruction = rag_query_instruction,
                   temperature = 0.2 \<rparr>
           in case generate_content request of
                Inr text \<Rightarrow> (text, [request])
              | Inl e \<Rightarrow> (llm_error, [request])))"

section \<open>The two programs\<close>

subsection \<open>The chat loop of \<open>src/rag_query.py\<close>\<close>

text \<open>
  \<open>str.strip()\<close> removes the white space at both ends. Below 256 the white-space code
  points (\<open>str.isspace\<close>) are 9 to 13, 28 to 32, \<open>0x85\<close> and \<open>0xA0\<close>.
\<close>

definition isspace :: "char \<Rightarrow> bool" where
  "isspace c =
     (let n = (of_char c :: nat)
      in (9 \<le> n \<and> n \<le> 13) \<or> (28 \<le> n \<and> n \<le> 32) \<or> n = 133 \<or> n = 160)"

definition strip :: "string \<Rightarrow> string" where
  "strip s = rev (dropWhile isspace (rev (dropWhile isspace s)))"

text \<open>
  One pass through the body of \<open>while True\<close> in \<open>main\<close>, for the line read by \<open>input\<close>.
  What the pass prints is kept as its outcome: the farewell (\<open>Quit\<close>), nothing
  (\<open>Ignored\<close>), the apology for a search without result (\<open>No_Results\<close>), or the answer
  (\<open>Answered\<close>, followed in the source by the elapsed time). The report also keeps the
  chunks retrieved and the remote calls made.
\<close>

datatype turn = Quit | Ignored | No_Results | Answered string

record turn_report =
  turn_outcome :: turn
  turn_chunks :: "string list"
  turn_rpc_calls :: "rpc_call list"
  turn_gen_calls :: "gen_request list"

definition rag_query_turn ::
  "query_encoder option \<Rightarrow> rpc option \<Rightarrow> llm option \<Rightarrow> (real \<Rightarrow> string) \<Rightarrow> string
     \<Rightarrow> exn + turn_report" where
  "rag_query_turn model_embedding supabase client_gemini fmt line =
     (let user_query = strip line
      in if lower user_query \<in> set [''sair'', ''exit'', ''quit'']
         then Inr \<lparr> turn_outcome = Quit, turn_chunks = [], turn_rpc_calls = [],
                    turn_gen_calls = [] \<rparr>
         else if user_query = []
         then Inr \<lparr> turn_outcome = Ignored, turn_chunks = [], turn_rpc_calls = [],
                    turn_gen_calls = [] \<rparr>
         else
           (case rag_query_get_relevant_chunks model_embedding supabase fmt user_query of
              (Inl e, calls) \<Rightarrow> Inl e
            | (Inr relevant_chunks, calls) \<Rightarrow>
                if relevant_chunks = []
                then Inr \<lparr> turn_outcome = No_Results, turn_chunks = [], turn_rpc_calls = calls,
                           turn_gen_calls = [] \<rparr>
                else
                  (case rag_query_generate_rag_answer client_gemini user_query relevant_chunks of
                     (final_answer, requests) \<Rightarrow>
                       Inr \<lparr> turn_outcome = Answered final_answer,
                             turn_chunks = relevant_chunks,
                             turn_rpc_calls = calls, turn_gen_calls = requests \<rparr>)))"

text \<open>
  The loop over the lines typed, and \<open>main\<close>: it returns at once when a handle is missing;
  \<open>input\<close> raises \<open>EOFError\<close> when the lines run out before a farewell.
\<close>

fun rag_query_loop ::
  "query_encoder option \<Rightarrow> rpc option \<Rightarrow> llm option \<Rightarrow> (real \<Rightarrow> string) \<Rightarrow> string list
     \<Rightarrow> turn_report list \<Rightarrow> exn + turn_report list" where
  "rag_query_loop model_embedding supabase client_gemini fmt [] reports =
     Inl (Exception ''EOFError'')"
| "rag_query_loop model_embedding supabase client_gemini fmt (line # lines) reports =
     (case rag_query_turn model_embedding supabase client_gemini fmt line of
        Inl e \<Rightarrow> Inl e
      | Inr report \<Rightarrow>
          if turn_outcome report = Quit then Inr (reports @ [report])
          else rag_query_loop model_embedding supabase client_gemini fmt lines
                 (reports @ [report]))"

definition rag_query_main ::
  "query_encoder option \<Rightarrow> rpc option \<Rightarrow> llm option \<Rightarrow> (real \<Rightarrow> string) \<Rightarrow> string list
     \<Rightarrow> exn + turn_report list" where
  "rag_query_main model_embedding supabase client_gemini fmt lines =
     (if supabase = None \<or> client_gemini = None \<or> model_embedding = None then Inr []
      else rag_query_loop model_embedding supabase client_gemini fmt lines [])"

subsection \<open>The page of \<open>app.py\<close>\<close>

text \<open>
  One run of the script for a chat input (\<open>None\<close> or a string): it stops when a handle
  is missing (lines 121 to 123), does nothing without a prompt, and otherwise retrieves,
  generates and builds the message shown. The two icons of the message lie outside the
  code points kept here and are parameters.
\<close>

record app_reply =
  reply_chunks :: "string list"
  reply_text :: string
  reply_source :: string
  reply_content :: string
  reply_rpc_calls :: "rpc_call list"
  reply_gen_calls :: "gen_request list"

datatype app_run = Stopped | Idle | Replied app_reply

definition app_respond ::
  "string \<Rightarrow> string \<Rightarrow> query_encoder option \<Rightarrow> rpc option \<Rightarrow> llm option \<Rightarrow> (real \<Rightarrow> string)
     \<Rightarrow> string option \<Rightarrow> exn + app_run" where
  "app_respond book_icon bulb_icon model_embedding supabase client_gemini fmt chat_input =
     (if supabase = None \<or> client_gemini = None \<or> model_embedding = None then Inr Stopped
      else
        (case chat_input of
           None \<Rightarrow> Inr Idle
         | Some prompt \<Rightarrow>
             if prompt = [] then Inr Idle
             else
               (case app_get_relevant_chunks model_embedding supabase fmt prompt of
                  (Inl e, calls) \<Rightarrow> Inl e
                | (Inr chunks, calls) \<Rightarrow>
                    (case app_generate_rag_answer client_gemini prompt chunks of
                       ((response_text, answer_source), requests) \<Rightarrow>
                         (let source_icon = (if answer_source = ''RAG'' then book_icon else bulb_icon);
                              source_label =
                                (if answer_source = ''RAG'' then ''RAG (Documentos)''
                                 else ''FALLBACK (Conhecimento Geral)'');
                              full_response_content =
                                ''**Fonte da Resposta: '' @ source_icon @ '' '' @ source_label @
                                ''**'' @ [CHR 0x0A, CHR 0x0A] @ response_text
                          in Inr (Replied
                               \<lparr> reply_chunks = chunks, reply_text = response_text,
                                 reply_source = answer_source, reply_content = full_response_content,
                                 reply_rpc_calls = calls, reply_gen_calls = requests \<rparr>))))))"

section \<open>Notions of the specification\<close>

text \<open>
  Case-insensitive substring matching, in the words of the specification: some contiguous
  run of the string equals the keyword once both are lowered.
\<close>

definition contains_ignoring_case :: "string \<Rightarrow> string \<Rightarrow> bool" where
  "contains_ignoring_case kw s \<longleftrightarrow> (\<exists>t. sublist t s \<and> lower t = lower kw)"

text \<open>Cutting a list into consecutive batches of a fixed size, the last one possibly shorter.\<close>

function batches_of :: "nat \<Rightarrow> 'a list \<Rightarrow> 'a list list" where
  "batches_of n xs = (if n = 0 \<or> xs = [] then [] else take n xs # batches_of n (drop n xs))"
  by pat_completeness auto
termination
  by (relation "measure (\<lambda>(n, xs). length xs)") auto

text \<open>The \<open>n\<close>-th request, carrying batch \<open>b\<close>, went through.\<close>

definition accepted :: "poster \<Rightarrow> nat \<times> chunk list \<Rightarrow> bool" where
  "accepted send nb = (case send (fst nb) (snd nb) of Inr status \<Rightarrow> True | Inl e \<Rightarrow> False)"

text \<open>
  Total extraction failure: an exception anywhere inside the \<open>try\<close> of
  \<open>extract_text_from_pdf\<close>, from opening the document or from one of its pages.
\<close>

definition extraction_failed :: "pdf_reader \<Rightarrow> string \<Rightarrow> bool" where
  "extraction_failed reader filepath =
     (case reader filepath of Inl e \<Rightarrow> True | Inr pages \<Rightarrow> list_ex isl pages)"

text \<open>
  What one document of the corpus adds to the records of a run: the embedded chunks of its
  text, and nothing when the text is empty.
\<close>

definition document_records :: "indexer \<Rightarrow> string \<Rightarrow> exn + chunk list" where
  "document_records ix filename =
     (let text = extract_text_from_pdf (PdfReader ix) (path_join DOCS_DIR filename)
      in if text \<noteq> []
         then generate_embeddings (encode ix) (chunk_text (split_text ix) text filename)
         else Inr [])"

section \<open>Sample inputs\<close>

definition sample_chunk :: chunk where
  "sample_chunk =
     \<lparr> source = ''diabetes.pdf'', chunk_index = 0, content = ''abc'',
       metadata = \<lparr> doenca = ''Diabetes'', tema = nutricao \<rparr>, embedding = Some [1] \<rparr>"

text \<open>A store that rejects the second request with HTTP 401.\<close>

definition sample_poster :: poster where
  "sample_poster n payload = (if n = 1 then Inl (HTTPError 401 ''Unauthorized'') else Inr 201)"

text \<open>A corpus of two documents, the first of them corrupt.\<close>

definition sample_indexer :: indexer where
  "sample_indexer =
     \<lparr> SUPABASE_URL = Some ''https://db.example'', SUPABASE_SERVICE_KEY = Some ''key'',
       docs_dir_exists = True,
       listdir = [''bad.pdf'', ''diabetes.pdf''],
       PdfReader = (\<lambda>path. if path = ''docs/bad.pdf'' then Inl (Exception ''corrupt'')
                            else Inr [Inr (Some ''abc''), Inr None]),
       split_text = (\<lambda>chunk_size chunk_overlap t. [t]),
       encode = (\<lambda>texts. Inr (map (\<lambda>t. [1]) texts)),
       post = (\<lambda>n payload. Inr 201) \<rparr>"

definition sample_match :: "real \<Rightarrow> match" where
  "sample_match s = \<lparr> match_source = ''a.pdf'', similarity = s, match_content = ''x'' \<rparr>"

text \<open>The five rows of scenario C of the specification.\<close>

definition sample_rows :: "match list" where
  "sample_rows =
     [sample_match 0.9, sample_match 0.8, sample_match 0.76, sample_match 0.6, sample_match 0.4]"

section \<open>Category metadata\<close>

lemma py_in_sublist: "py_in kw s \<longleftrightarrow> sublist kw s"
  by (induction s) (auto simp: sublist_Cons_right)

lemma contains_ignoring_case_code:
  "contains_ignoring_case kw s \<longleftrightarrow> py_in (lower kw) (lower s)"
proof
  assume "contains_ignoring_case kw s"
  then obtain t where "sublist t s" "lower t = lower kw"
    by (auto simp: contains_ignoring_case_def)
  then show "py_in (lower kw) (lower s)"
    unfolding py_in_sublist lower_def by (metis map_mono_sublist)
next
  assume "py_in (lower kw) (lower s)"
  then have "sublist (lower kw) (map lower_char s)"
    by (simp add: py_in_sublist lower_def)
  then obtain t where "sublist t s" "lower kw = map lower_char t"
    using sublist_map_rightE by blast
  then show "contains_ignoring_case kw s"
    by (auto simp: contains_ignoring_case_def lower_def)
qed

lemma lower_keywords:
  "lower ''diabetes'' = ''diabetes''"
  "lower ''cancer'' = ''cancer''"
  "lower ''estomago'' = ''estomago''"
  by code_simp+

lemma chunk_text_doenca:
  "c \<in> set (chunk_text sp text fn) \<Longrightarrow>
   doenca (metadata c) =
     (if py_in ''diabetes'' (lower fn) then ''Diabetes''
      else if py_in ''cancer'' (lower fn) \<or> py_in ''estomago'' (lower fn) then Cancer_de_Estomago
      else Geral_Nao_Especificado)"
  by (auto simp: chunk_text_def Let_def)

lemma length_chunk_text: "length (chunk_text sp text fn) = length (sp 500 50 text)"
  by (simp add: chunk_text_def Let_def)

text \<open>
  The chunks carry the segments of the splitter, unchanged and in order, numbered from 0.
\<close>

lemma chunk_text_nth:
  assumes "i < length (sp 500 50 text)"
  shows "content (chunk_text sp text fn ! i) = sp 500 50 text ! i"
    and "chunk_index (chunk_text sp text fn ! i) = i"
  using assms by (simp_all add: chunk_text_def Let_def nth_enumerate_eq)

lemma chunk_text_nonempty:
  assumes "sp 500 50 text \<noteq> []"
  shows "hd (chunk_text sp text fn) \<in> set (chunk_text sp text fn)"
proof -
  have "length (chunk_text sp text fn) \<noteq> 0"
    using assms by (simp only: length_chunk_text) simp
  then show ?thesis by simp
qed

text \<open>
  C6. Every chunk of a source carries a category that depends on the filename alone, by
  case-insensitive substring matching against the keyword table read in order: a filename
  containing \<open>diabetes\<close> gives \<open>Diabetes\<close>; otherwise one containing \<open>cancer\<close> or
  \<open>estomago\<close> gives the stomach-cancer category; any other filename gives the general
  category.
\<close>

theorem category_from_filename:
  "c \<in> set (chunk_text sp text fn) \<Longrightarrow>
   doenca (metadata c) =
     (if contains_ignoring_case ''diabetes'' fn then ''Diabetes''
      else if contains_ignoring_case ''cancer'' fn \<or> contains_ignoring_case ''estomago'' fn
        then Cancer_de_Estomago
      else Geral_Nao_Especificado)"
proof -
  assume c: "c \<in> set (chunk_text sp text fn)"
  have d: "contains_ignoring_case ''diabetes'' fn \<longleftrightarrow> py_in ''diabetes'' (lower fn)"
    by (simp only: contains_ignoring_case_code lower_keywords)
  have k: "contains_ignoring_case ''cancer'' fn \<longleftrightarrow> py_in ''cancer'' (lower fn)"
    by (simp only: contains_ignoring_case_code lower_keywords)
  have e: "contains_ignoring_case ''estomago'' fn \<longleftrightarrow> py_in ''estomago'' (lower fn)"
    by (simp only: contains_ignoring_case_code lower_keywords)
  from chunk_text_doenca[OF c] show ?thesis
    by (simp only: d k e)
qed

theorem category_from_filename_witness:
  "doenca (metadata (hd (chunk_text (\<lambda>chunk_size chunk_overlap t. [t]) ''abc'' ''Dieta_ESTOMAGO.pdf'')))
     = Cancer_de_Estomago"
proof -
  let ?cs = "chunk_text (\<lambda>chunk_size chunk_overlap t. [t]) ''abc'' ''Dieta_ESTOMAGO.pdf''"
  have m: "hd ?cs \<in> set ?cs"
    by (rule chunk_text_nonempty) simp
  have d: "\<not> contains_ignoring_case ''diabetes'' ''Dieta_ESTOMAGO.pdf''"
    unfolding contains_ignoring_case_code by code_simp
  have e: "contains_ignoring_case ''estomago'' ''Dieta_ESTOMAGO.pdf''"
    unfolding contains_ignoring_case_code by code_simp
  show ?thesis
    using category_from_filename[OF m] d e by simp
qed

text \<open>
  C10. A filename that contains \<open>diabetes\<close> together with \<open>cancer\<close> or \<open>estomago\<close> is
  tagged \<open>Diabetes\<close>: the diabetes rule is tried first.
\<close>

theorem diabetes_takes_precedence:
  assumes "contains_ignoring_case ''diabetes'' fn"
    and "contains_ignoring_case ''cancer'' fn \<or> contains_ignoring_case ''estomago'' fn"
    and "c \<in> set (chunk_text sp text fn)"
  shows "doenca (metadata c) = ''Diabetes''"
proof -
  from assms(1) have "py_in ''diabetes'' (lower fn)"
    by (simp only: contains_ignoring_case_code lower_keywords)
  with chunk_text_doenca[OF assms(3)] show ?thesis
    by simp
qed

theorem diabetes_takes_precedence_witness:
  "doenca (metadata (hd (chunk_text (\<lambda>chunk_size chunk_overlap t. [t]) ''abc'' ''Cancer_e_Diabetes.pdf'')))
     = ''Diabetes''"
proof -
  let ?cs = "chunk_text (\<lambda>chunk_size chunk_overlap t. [t]) ''abc'' ''Cancer_e_Diabetes.pdf''"
  have m: "hd ?cs \<in> set ?cs"
    by (rule chunk_text_nonempty) simp
  have d: "contains_ignoring_case ''diabetes'' ''Cancer_e_Diabetes.pdf''"
    unfolding contains_ignoring_case_code by code_simp
  have k: "contains_ignoring_case ''cancer'' ''Cancer_e_Diabetes.pdf''"
    unfolding contains_ignoring_case_code by code_simp
  show ?thesis
    using diabetes_takes_precedence[OF d disjI1[OF k] m] .
qed

section \<open>Bulk insertion\<close>

declare batches_of.simps [simp del]
declare insert_batches.simps [simp del]

lemma concat_batches_of: "0 < n \<Longrightarrow> concat (batches_of n xs) = xs"
proof (induction n xs rule: batches_of.induct)
  case (1 n xs)
  then show ?case by (subst batches_of.simps) auto
qed

lemma batches_of_sizes:
  "b \<in> set (batches_of n xs) \<Longrightarrow> 0 < length b \<and> length b \<le> n"
proof (induction n xs rule: batches_of.induct)
  case (1 n xs)
  show ?case
  proof (cases "n = 0 \<or> xs = []")
    case True
    with "1.prems" show ?thesis by (simp add: batches_of.simps)
  next
    case False
    then have "batches_of n xs = take n xs # batches_of n (drop n xs)"
      by (subst batches_of.simps) simp
    with "1.prems" have "b = take n xs \<or> b \<in> set (batches_of n (drop n xs))"
      by auto
    with False "1.IH"[OF False] show ?thesis by auto
  qed
qed

lemma batches_of_butlast:
  "b \<in> set (butlast (batches_of n xs)) \<Longrightarrow> length b = n"
proof (induction n xs rule: batches_of.induct)
  case (1 n xs)
  show ?case
  proof (cases "n = 0 \<or> xs = []")
    case True
    with "1.prems" show ?thesis by (simp add: batches_of.simps)
  next
    case False
    then have eq: "batches_of n xs = take n xs # batches_of n (drop n xs)"
      by (subst batches_of.simps) simp
    show ?thesis
    proof (cases "batches_of n (drop n xs) = []")
      case True
      with "1.prems" eq show ?thesis by simp
    next
      case ne: False
      then have "drop n xs \<noteq> []" by (auto simp: batches_of.simps)
      then have len: "length (take n xs) = n" by simp
      from "1.prems" eq ne have "b = take n xs \<or> b \<in> set (butlast (batches_of n (drop n xs)))"
        by auto
      with len "1.IH"[OF False] show ?thesis by auto
    qed
  qed
qed

text \<open>
  The loop, started at a multiple of the batch size: it sends the batches of the remaining
  records up to and including the first one refused, and counts the records of those
  accepted before it.
\<close>

lemma insert_batches_eq:
  "i = j * BATCH_SIZE \<Longrightarrow>
   insert_batches send xs i count sent =
     (let bs = batches_of BATCH_SIZE (drop i xs);
          k = length (takeWhile (accepted send) (enumerate j bs))
      in (count + length (concat (take k bs)), sent @ take (Suc k) bs))"
proof (induction send xs i count sent arbitrary: j rule: insert_batches.induct)
  case (1 send xs i count sent)
  show ?case
  proof (cases "i < length xs")
    case False
    then show ?thesis
      by (subst insert_batches.simps) (simp add: batches_of.simps)
  next
    case True
    let ?b = "take BATCH_SIZE (drop i xs)"
    let ?rest = "batches_of BATCH_SIZE (drop (i + BATCH_SIZE) xs)"
    have bs: "batches_of BATCH_SIZE (drop i xs) = ?b # ?rest"
      using True by (subst batches_of.simps) (simp add: BATCH_SIZE_def add.commute)
    have ij: "i div BATCH_SIZE = j" using "1.prems" by (simp add: BATCH_SIZE_def)
    show ?thesis
    proof (cases "send j ?b")
      case (Inl e)
      then show ?thesis using True ij
        by (subst insert_batches.simps) (simp add: bs accepted_def Let_def)
    next
      case (Inr status)
      have step: "i + BATCH_SIZE = Suc j * BATCH_SIZE" using "1.prems" by simp
      have "insert_batches send xs i count sent =
            insert_batches send xs (i + BATCH_SIZE) (count + length ?b) (sent @ [?b])"
        using True ij Inr by (subst insert_batches.simps) simp
      also have "\<dots> =
        (let k = length (takeWhile (accepted send) (enumerate (Suc j) ?rest))
         in (count + length ?b + length (concat (take k ?rest)),
             (sent @ [?b]) @ take (Suc k) ?rest))"
        using "1.IH"[OF True _ step, of status] ij Inr by (simp add: Let_def)
      finally have run: "insert_batches send xs i count sent =
        (let k = length (takeWhile (accepted send) (enumerate (Suc j) ?rest))
         in (count + length ?b + length (concat (take k ?rest)),
             (sent @ [?b]) @ take (Suc k) ?rest))" .
      have acc: "accepted send (j, ?b)" using Inr by (simp add: accepted_def)
      have "takeWhile (accepted send) (enumerate j (?b # ?rest)) =
            (j, ?b) # takeWhile (accepted send) (enumerate (Suc j) ?rest)"
        using acc by simp
      then show ?thesis
        unfolding run bs by (simp add: Let_def)
    qed
  qed
qed

lemma takeWhile_first_failure:
  assumes "k < length bs" "\<forall>n<k. P (n, bs ! n)" "\<not> P (k, bs ! k)"
  shows "length (takeWhile P (enumerate 0 bs)) = k"
proof -
  have "takeWhile P (enumerate 0 bs) = take k (enumerate 0 bs)"
    using assms by (intro takeWhile_eq_take_P_nth) (auto simp: nth_enumerate_eq)
  then show ?thesis using assms by simp
qed

lemma takeWhile_no_failure:
  assumes "\<forall>n<length bs. P (n, bs ! n)"
  shows "length (takeWhile P (enumerate 0 bs)) = length bs"
proof -
  have "\<forall>x\<in>set (enumerate 0 bs). P x"
    using assms by (auto simp: in_set_conv_nth nth_enumerate_eq)
  then have "takeWhile P (enumerate 0 bs) = enumerate 0 bs"
    by (simp add: takeWhile_eq_all_conv)
  then show ?thesis by (metis length_enumerate)
qed

lemma length_concat_uniform:
  "\<forall>b\<in>set ys. length b = n \<Longrightarrow> length (concat ys) = length ys * n"
  by (induction ys) auto

lemma length_concat_full_batches:
  assumes k: "k < length (batches_of n xs)"
  shows "length (concat (take k (batches_of n xs))) = k * n"
proof -
  have "\<forall>b\<in>set (take k (batches_of n xs)). length b = n"
  proof
    fix b assume "b \<in> set (take k (batches_of n xs))"
    moreover have "take k (batches_of n xs) = take k (butlast (batches_of n xs))"
      using k by (simp add: take_butlast)
    ultimately have "b \<in> set (butlast (batches_of n xs))"
      by (metis in_set_takeD)
    then show "length b = n" by (rule batches_of_butlast)
  qed
  then have "length (concat (take k (batches_of n xs))) = length (take k (batches_of n xs)) * n"
    by (rule length_concat_uniform)
  then show ?thesis using k by simp
qed

lemma posted_subset:
  assumes b: "b \<in> set (posted (insert_data_to_supabase_api send data))"
  shows "set b \<subseteq> set data"
proof -
  let ?bs = "batches_of BATCH_SIZE data"
  obtain k where "posted (insert_data_to_supabase_api send data) = take k ?bs"
    using insert_batches_eq[of 0 0 send data 0 "[]"]
    by (simp add: insert_data_to_supabase_api_def Let_def)
  with b have "b \<in> set ?bs" by (metis in_set_takeD)
  then have "set b \<subseteq> set (concat ?bs)" by auto
  then show ?thesis by (simp add: concat_batches_of BATCH_SIZE_def)
qed

text \<open>
  C4. The records are cut, in order, into batches of 500 (the last one may be shorter).
  When request \<open>k\<close> is the first one refused, whatever the exception, the requests sent are
  exactly the first \<open>k + 1\<close> batches, none after it, and the count reported is the number
  of records of the \<open>k\<close> batches accepted before it, \<open>500 * k\<close>, reported against the
  larger total as a partial indexing. When no request is refused every batch is sent, the
  count is the total and the indexing is reported complete.
\<close>

theorem insert_halts_at_first_failure:
  fixes send :: poster and data :: "chunk list"
  defines "bs \<equiv> batches_of BATCH_SIZE data"
  defines "r \<equiv> insert_data_to_supabase_api send data"
  shows "concat bs = data \<and>
     (\<forall>b\<in>set bs. 0 < length b \<and> length b \<le> 500) \<and>
     (\<forall>b\<in>set (butlast bs). length b = 500) \<and>
     total_records r = length data \<and>
     (\<forall>k. k < length bs \<and> (\<forall>n<k. accepted send (n, bs ! n)) \<and> \<not> accepted send (k, bs ! k) \<longrightarrow>
          posted r = take (Suc k) bs \<and>
          success_count r = length (concat (take k bs)) \<and>
          success_count r = k * 500 \<and>
          success_count r < total_records r \<and> \<not> complete r) \<and>
     ((\<forall>n<length bs. accepted send (n, bs ! n)) \<longrightarrow>
          posted r = bs \<and> success_count r = length data \<and> complete r)"
proof -
  have r: "r = (let k = length (takeWhile (accepted send) (enumerate 0 bs))
               in \<lparr> success_count = length (concat (take k bs)), total_records = length data,
                    complete = (length (concat (take k bs)) = length data),
                    posted = take (Suc k) bs \<rparr>)"
    unfolding r_def bs_def insert_data_to_supabase_api_def
    using insert_batches_eq[of 0 0 send data 0 "[]"] by (simp add: Let_def)
  have c: "concat bs = data" unfolding bs_def by (simp add: concat_batches_of BATCH_SIZE_def)
  have s: "\<forall>b\<in>set bs. 0 < length b \<and> length b \<le> 500"
    unfolding bs_def using batches_of_sizes[of _ BATCH_SIZE data] by (simp add: BATCH_SIZE_def)
  have f: "\<forall>b\<in>set (butlast bs). length b = 500"
    unfolding bs_def using batches_of_butlast[of _ BATCH_SIZE data] by (simp add: BATCH_SIZE_def)
  have t: "total_records r = length data" by (simp add: r Let_def)
  have h: "posted r = take (Suc k) bs \<and> success_count r = length (concat (take k bs)) \<and>
        success_count r = k * 500 \<and> success_count r < total_records r \<and> \<not> complete r"
    if "k < length bs" "\<forall>n<k. accepted send (n, bs ! n)" "\<not> accepted send (k, bs ! k)" for k
  proof -
    have "length (takeWhile (accepted send) (enumerate 0 bs)) = k"
      using that by (rule takeWhile_first_failure)
    moreover have "length (concat (take k bs)) = k * 500"
      using that(1) length_concat_full_batches[of k BATCH_SIZE data]
      by (simp add: bs_def BATCH_SIZE_def)
    moreover have "length (concat (take k bs)) < length data"
    proof -
      have "bs ! k \<in> set bs" using that(1) by simp
      then have pos: "0 < length (bs ! k)" using s by blast
      have split: "take k bs @ bs ! k # drop (Suc k) bs = bs"
        using id_take_nth_drop[OF that(1)] by (rule sym)
      have "length (concat bs) = length (concat (take k bs @ bs ! k # drop (Suc k) bs))"
        by (simp only: split)
      also have "\<dots> =
          length (concat (take k bs)) + (length (bs ! k) + length (concat (drop (Suc k) bs)))"
        by (simp only: concat_append concat.simps length_append)
      finally have "length (concat (take k bs)) < length (concat bs)"
        using pos by linarith
      then show ?thesis by (simp only: c)
    qed
    ultimately show ?thesis by (simp add: r Let_def)
  qed
  have a: "posted r = bs \<and> success_count r = length data \<and> complete r"
    if "\<forall>n<length bs. accepted send (n, bs ! n)"
  proof -
    have "length (takeWhile (accepted send) (enumerate 0 bs)) = length bs"
      using that by (rule takeWhile_no_failure)
    then show ?thesis using c by (simp add: r Let_def)
  qed
  from c s f t h a show ?thesis by blast
qed

theorem insert_halts_at_first_failure_witness:
  "success_count (insert_data_to_supabase_api sample_poster (replicate 1200 sample_chunk)) = 500 \<and>
   total_records (insert_data_to_supabase_api sample_poster (replicate 1200 sample_chunk)) = 1200 \<and>
   \<not> complete (insert_data_to_supabase_api sample_poster (replicate 1200 sample_chunk)) \<and>
   posted (insert_data_to_supabase_api sample_poster (replicate 1200 sample_chunk)) =
     [replicate 500 sample_chunk, replicate 500 sample_chunk]"
proof -
  let ?data = "replicate 1200 sample_chunk"
  let ?bs = "batches_of BATCH_SIZE ?data"
  let ?r = "insert_data_to_supabase_api sample_poster ?data"
  have bs: "?bs = [replicate 500 sample_chunk, replicate 500 sample_chunk, replicate 200 sample_chunk]"
    by (simp add: batches_of.simps BATCH_SIZE_def)
  have h: "1 < length ?bs \<and> (\<forall>n<1. accepted sample_poster (n, ?bs ! n)) \<and>
           \<not> accepted sample_poster (1, ?bs ! 1)"
    by (simp add: bs accepted_def sample_poster_def)
  from insert_halts_at_first_failure[where send = sample_poster and data = ?data] h
  have "posted ?r = take (Suc 1) ?bs \<and> success_count ?r = 1 * 500 \<and>
        total_records ?r = length ?data \<and> \<not> complete ?r"
    by blast
  then show ?thesis by (simp add: bs)
qed

section \<open>Corrupt documents\<close>

lemma extract_pages_raises:
  "list_ex isl pages \<Longrightarrow> \<exists>e. extract_pages pages acc = Inl e"
  by (induction pages arbitrary: acc) (auto split: sum.splits)

lemma extraction_failed_empty:
  assumes "extraction_failed reader filepath"
  shows "extract_text_from_pdf reader filepath = []"
proof (cases "reader filepath")
  case (Inl e)
  then show ?thesis by (simp add: extract_text_from_pdf_def)
next
  case (Inr pages)
  with assms have "list_ex isl pages" by (simp add: extraction_failed_def)
  then obtain e where "extract_pages pages [] = Inl e"
    using extract_pages_raises by blast
  with Inr show ?thesis by (simp add: extract_text_from_pdf_def)
qed

lemma process_files_skip:
  "extract_text_from_pdf (PdfReader ix) (path_join DOCS_DIR f) = [] \<Longrightarrow>
   process_files ix (before @ f # after) acc = process_files ix (before @ after) acc"
  by (induction before arbitrary: acc) (auto simp: Let_def split: sum.splits)

lemma map_source_update:
  "map source (cs[i := (cs ! i)\<lparr>embedding := v\<rparr>]) = map source cs"
  by (cases "i < length cs") (auto simp: nth_list_update intro!: nth_equalityI)

lemma store_embeddings_source:
  "store_embeddings i es cs = Inr cs' \<Longrightarrow> map source cs' = map source cs"
proof (induction i es cs rule: store_embeddings.induct)
  case (1 i cs)
  then show ?case by simp
next
  case (2 i e es cs)
  show ?case
  proof (cases "i < length cs")
    case True
    with "2.prems"
    have "store_embeddings (Suc i) es (cs[i := (cs ! i)\<lparr>embedding := Some e\<rparr>]) = Inr cs'"
      by simp
    from "2.IH"[OF True this] show ?thesis by (simp only: map_source_update)
  next
    case False
    with "2.prems" show ?thesis by simp
  qed
qed

lemma generate_embeddings_source:
  "generate_embeddings enc cs = Inr cs' \<Longrightarrow> map source cs' = map source cs"
  by (auto simp: generate_embeddings_def store_embeddings_source split: sum.splits)

lemma chunk_text_source: "c \<in> set (chunk_text sp text fn) \<Longrightarrow> source c = fn"
  by (auto simp: chunk_text_def Let_def)

text \<open>Every record collected comes from a file whose extracted text was not empty.\<close>

lemma process_files_sources:
  "process_files ix fs acc = Inr out \<Longrightarrow> c \<in> set out \<Longrightarrow>
   c \<in> set acc \<or>
   (source c \<in> set fs \<and>
    extract_text_from_pdf (PdfReader ix) (path_join DOCS_DIR (source c)) \<noteq> [])"
proof (induction fs arbitrary: acc)
  case Nil
  then show ?case by simp
next
  case (Cons f fs)
  let ?text = "extract_text_from_pdf (PdfReader ix) (path_join DOCS_DIR f)"
  show ?case
  proof (cases "?text = []")
    case True
    with Cons.prems have "process_files ix fs acc = Inr out" by simp
    from Cons.IH[OF this Cons.prems(2)] show ?thesis by auto
  next
    case False
    with Cons.prems(1) obtain cwe where
      g: "generate_embeddings (encode ix) (chunk_text (split_text ix) ?text f) = Inr cwe" and
      p: "process_files ix fs (acc @ cwe) = Inr out"
      by (auto simp: Let_def split: sum.splits)
    have src: "\<forall>d\<in>set cwe. source d = f"
    proof
      fix d assume "d \<in> set cwe"
      then have "source d \<in> set (map source (chunk_text (split_text ix) ?text f))"
        using generate_embeddings_source[OF g] by (metis image_eqI set_map)
      then show "source d = f" by (auto dest: chunk_text_source)
    qed
    from Cons.IH[OF p Cons.prems(2)] src False show ?thesis by auto
  qed
qed

lemma process_files_append:
  "process_files ix (xs @ ys) acc =
     (case process_files ix xs acc of
        Inl e \<Rightarrow> Inl e
      | Inr acc' \<Rightarrow> process_files ix ys acc')"
  by (induction xs arbitrary: acc) (auto simp: Let_def split: sum.splits)

text \<open>
  When no embedding call raises, the loop returns the accumulator followed by the records
  of each document listed, in order.
\<close>

lemma process_files_records:
  "\<forall>g\<in>set fs. document_records ix g = Inr (recs g) \<Longrightarrow>
   process_files ix fs acc = Inr (acc @ concat (map recs fs))"
proof (induction fs arbitrary: acc)
  case Nil
  then show ?case by simp
next
  case (Cons g fs)
  let ?text = "extract_text_from_pdf (PdfReader ix) (path_join DOCS_DIR g)"
  from Cons.prems have g: "document_records ix g = Inr (recs g)"
    and rest: "\<forall>h\<in>set fs. document_records ix h = Inr (recs h)"
    by simp_all
  show ?case
  proof (cases "?text = []")
    case True
    with g have "recs g = []" by (simp add: document_records_def)
    with True Cons.IH[OF rest, of acc] show ?thesis by simp
  next
    case False
    with g have "generate_embeddings (encode ix) (chunk_text (split_text ix) ?text g) = Inr (recs g)"
      by (simp add: document_records_def)
    with False Cons.IH[OF rest, of "acc @ recs g"] show ?thesis by simp
  qed
qed

text \<open>
  C5. When extraction of a document fails entirely, \<open>extract_text_from_pdf\<close> returns the
  empty string instead of raising, and the document adds no record. The loop over the
  corpus goes on with the documents listed after it: its result is the records of the
  documents before the corrupt one followed by the records of the documents after it,
  the same as if the corrupt document were not listed. No record sent to the store by the
  run has that document as its source.
\<close>

theorem corrupt_document_skipped:
  assumes "extraction_failed (PdfReader ix) (path_join DOCS_DIR f)"
  shows "extract_text_from_pdf (PdfReader ix) (path_join DOCS_DIR f) = [] \<and>
     document_records ix f = Inr [] \<and>
     ((\<forall>g\<in>set (before @ after). document_records ix g = Inr (recs g)) \<longrightarrow>
        process_files ix (before @ f # after) acc =
          Inr (acc @ concat (map recs before) @ concat (map recs after))) \<and>
     process_files ix (before @ f # after) acc = process_files ix (before @ after) acc \<and>
     (\<forall>r. main ix = Inr (Inserted r) \<longrightarrow> (\<forall>b\<in>set (posted r). \<forall>c\<in>set b. source c \<noteq> f))"
proof -
  have e: "extract_text_from_pdf (PdfReader ix) (path_join DOCS_DIR f) = []"
    using assms by (rule extraction_failed_empty)
  have d: "document_records ix f = Inr []"
    by (simp add: document_records_def e)
  have k: "process_files ix (before @ f # after) acc =
          Inr (acc @ concat (map recs before) @ concat (map recs after))"
    if all: "\<forall>g\<in>set (before @ after). document_records ix g = Inr (recs g)"
  proof -
    let ?recs = "\<lambda>g. if g = f then [] else recs g"
    have "\<forall>g\<in>set (before @ f # after). document_records ix g = Inr (?recs g)"
      using all d by auto
    then have "process_files ix (before @ f # after) acc =
        Inr (acc @ concat (map ?recs (before @ f # after)))"
      by (rule process_files_records)
    moreover have "map ?recs before = map recs before"
    proof (rule map_cong[OF refl])
      fix g assume "g \<in> set before"
      with all d show "?recs g = recs g" by auto
    qed
    moreover have "map ?recs after = map recs after"
    proof (rule map_cong[OF refl])
      fix g assume "g \<in> set after"
      with all d show "?recs g = recs g" by auto
    qed
    ultimately show ?thesis by simp
  qed
  have m: "source c \<noteq> f"
    if "main ix = Inr (Inserted r)" "b \<in> set (posted r)" "c \<in> set b" for r b c
  proof -
    from that(1) obtain fs data where
      p: "process_files ix fs [] = Inr data" and
      r: "r = insert_data_to_supabase_api (post ix) data"
      by (auto simp: main_def Let_def split: if_splits sum.splits)
    from that(2,3) r have "c \<in> set data" using posted_subset by blast
    from process_files_sources[OF p this] e show ?thesis by auto
  qed
  show ?thesis
  proof (intro conjI allI impI ballI)
    show "extract_text_from_pdf (PdfReader ix) (path_join DOCS_DIR f) = []" by (rule e)
    show "document_records ix f = Inr []" by (rule d)
    show "process_files ix (before @ f # after) acc =
          Inr (acc @ concat (map recs before) @ concat (map recs after))"
      if "\<forall>g\<in>set (before @ after). document_records ix g = Inr (recs g)"
      using that by (rule k)
    show "process_files ix (before @ f # after) acc = process_files ix (before @ after) acc"
      by (rule process_files_skip[OF e])
    show "source c \<noteq> f"
      if "main ix = Inr (Inserted r)" "b \<in> set (posted r)" "c \<in> set b" for r b c
      using that by (rule m)
  qed
qed

theorem corrupt_document_skipped_witness:
  "extraction_failed (PdfReader sample_indexer) ''docs/bad.pdf'' \<and>
   extract_text_from_pdf (PdfReader sample_indexer) ''docs/bad.pdf'' = [] \<and>
   document_records sample_indexer ''diabetes.pdf'' = Inr [sample_chunk] \<and>
   process_files sample_indexer [''bad.pdf'', ''diabetes.pdf''] [] = Inr [sample_chunk]"
proof -
  have p: "path_join DOCS_DIR ''bad.pdf'' = ''docs/bad.pdf''"
    by (simp add: path_join_def DOCS_DIR_def)
  have h: "extraction_failed (PdfReader sample_indexer) (path_join DOCS_DIR ''bad.pdf'')"
    by (simp add: p extraction_failed_def sample_indexer_def)
  have g: "document_records sample_indexer ''diabetes.pdf'' = Inr [sample_chunk]"
    by code_simp
  have a: "\<forall>g\<in>set ([] @ [''diabetes.pdf'']).
             document_records sample_indexer g = Inr ((\<lambda>g. [sample_chunk]) g)"
    using g by simp
  note skipped = corrupt_document_skipped[OF h, of "[]" "[''diabetes.pdf'']"
                   "\<lambda>g. [sample_chunk]" "[]"]
  have e: "extract_text_from_pdf (PdfReader sample_indexer) (path_join DOCS_DIR ''bad.pdf'') = []"
    using skipped by (rule conjunct1)
  have "process_files sample_indexer [''bad.pdf'', ''diabetes.pdf''] [] = Inr [sample_chunk]"
    using skipped[THEN conjunct2, THEN conjunct2, THEN conjunct1] a
    by (simp del: process_files.simps)
  with h g e show ?thesis by (simp add: p del: process_files.simps)
qed

section \<open>Retrieval\<close>

lemma app_collect_eq:
  "app_collect fmt ms acc =
     acc @ map (content_with_source fmt) (filter (\<lambda>m. 0.75 < similarity m) ms)"
  by (induction ms arbitrary: acc) auto

lemma rag_query_collect_eq:
  "rag_query_collect fmt ms acc = acc @ map (content_with_source fmt) ms"
  by (induction ms arbitrary: acc) auto

lemma app_get_rows:
  assumes "me = Some enc" "sb = Some rpc" "enc q = Inr v"
    "rpc ''match_documents'' \<lparr> query_embedding = v, match_threshold = 0.5, match_count = 5 \<rparr> = Inr data"
  shows "app_get_relevant_chunks me sb fmt q =
     (Inr (map (content_with_source fmt) (filter (\<lambda>m. 0.75 < similarity m) data)),
      [(''match_documents'', \<lparr> query_embedding = v, match_threshold = 0.5, match_count = 5 \<rparr>)])"
  using assms by (simp add: app_get_relevant_chunks_def app_collect_eq K_CHUNKS_def)

lemma app_get_no_rows:
  assumes "\<not> (\<exists>enc rpc v data. me = Some enc \<and> sb = Some rpc \<and> enc q = Inr v \<and>
    rpc ''match_documents'' \<lparr> query_embedding = v, match_threshold = 0.5, match_count = 5 \<rparr> = Inr data)"
  shows "fst (app_get_relevant_chunks me sb fmt q) = Inr []"
  using assms
  by (auto simp: app_get_relevant_chunks_def K_CHUNKS_def Let_def split: option.splits sum.splits)

lemma rag_query_get_rows:
  assumes "me = Some enc" "sb = Some rpc" "enc q = Inr v"
    "rpc ''match_documents'' \<lparr> query_embedding = v, match_threshold = 0.5, match_count = 5 \<rparr> = Inr data"
  shows "rag_query_get_relevant_chunks me sb fmt q =
     (Inr (map (content_with_source fmt) data),
      [(''match_documents'', \<lparr> query_embedding = v, match_threshold = 0.5, match_count = 5 \<rparr>)])"
  using assms by (simp add: rag_query_get_relevant_chunks_def rag_query_collect_eq K_CHUNKS_def)

lemma rag_query_get_no_rows:
  assumes "\<not> (\<exists>enc rpc v data. me = Some enc \<and> sb = Some rpc \<and> enc q = Inr v \<and>
    rpc ''match_documents'' \<lparr> query_embedding = v, match_threshold = 0.5, match_count = 5 \<rparr> = Inr data)"
  shows "fst (rag_query_get_relevant_chunks me sb fmt q) = Inr [] \<or>
         (\<exists>e. fst (rag_query_get_relevant_chunks me sb fmt q) = Inl e)"
  using assms
  by (auto simp: rag_query_get_relevant_chunks_def K_CHUNKS_def Let_def
           split: option.splits sum.splits)

lemma app_get_calls:
  "c \<in> set (snd (app_get_relevant_chunks me sb fmt q)) \<Longrightarrow>
   fst c = ''match_documents'' \<and> match_threshold (snd c) = 0.5 \<and> match_count (snd c) = 5"
  by (auto simp: app_get_relevant_chunks_def K_CHUNKS_def Let_def split: option.splits sum.splits)

lemma rag_query_get_calls:
  "c \<in> set (snd (rag_query_get_relevant_chunks me sb fmt q)) \<Longrightarrow>
   fst c = ''match_documents'' \<and> match_threshold (snd c) = 0.5 \<and> match_count (snd c) = 5"
  by (auto simp: rag_query_get_relevant_chunks_def K_CHUNKS_def Let_def
           split: option.splits sum.splits)

lemma get_calls_made:
  assumes "me = Some enc" "sb = Some rpc" "enc q = Inr v"
  shows "snd (app_get_relevant_chunks me sb fmt q) =
           [(''match_documents'', \<lparr> query_embedding = v, match_threshold = 0.5, match_count = 5 \<rparr>)]"
    and "snd (rag_query_get_relevant_chunks me sb fmt q) =
           [(''match_documents'', \<lparr> query_embedding = v, match_threshold = 0.5, match_count = 5 \<rparr>)]"
  using assms
  by (auto simp: app_get_relevant_chunks_def rag_query_get_relevant_chunks_def K_CHUNKS_def Let_def
           split: sum.splits)

text \<open>
  C1, as the code has it. In \<open>app.py\<close> every retrieval call returns only matches whose
  similarity is strictly above 0.75: of the rows the service sent for threshold 0.5, those
  at or below 0.75 are dropped and the others kept in order. In \<open>src/rag_query.py\<close> there
  is no client-side filter: every row the service sent is returned.
\<close>

theorem post_filter_in_app_only:
  "(\<exists>kept. fst (app_get_relevant_chunks me sb fmt q) = Inr (map (content_with_source fmt) kept) \<and>
      (\<forall>m\<in>set kept. 0.75 < similarity m)) \<and>
   (\<forall>enc rpc v data. me = Some enc \<and> sb = Some rpc \<and> enc q = Inr v \<and>
      rpc ''match_documents'' \<lparr> query_embedding = v, match_threshold = 0.5, match_count = 5 \<rparr> = Inr data
      \<longrightarrow> fst (app_get_relevant_chunks me sb fmt q) =
             Inr (map (content_with_source fmt) (filter (\<lambda>m. 0.75 < similarity m) data)) \<and>
           fst (rag_query_get_relevant_chunks me sb fmt q) = Inr (map (content_with_source fmt) data))"
proof (intro conjI)
  show "\<exists>kept. fst (app_get_relevant_chunks me sb fmt q) = Inr (map (content_with_source fmt) kept) \<and>
      (\<forall>m\<in>set kept. 0.75 < similarity m)"
  proof (cases "\<exists>enc rpc v data. me = Some enc \<and> sb = Some rpc \<and> enc q = Inr v \<and>
    rpc ''match_documents'' \<lparr> query_embedding = v, match_threshold = 0.5, match_count = 5 \<rparr> = Inr data")
    case True
    then obtain enc rpc v data where h: "me = Some enc" "sb = Some rpc" "enc q = Inr v"
      "rpc ''match_documents'' \<lparr> query_embedding = v, match_threshold = 0.5, match_count = 5 \<rparr> = Inr data"
      by blast
    show ?thesis
      by (rule exI[of _ "filter (\<lambda>m. 0.75 < similarity m) data"]) (simp add: app_get_rows[OF h])
  next
    case False
    show ?thesis
      by (rule exI[of _ "[]"]) (simp add: app_get_no_rows[OF False])
  qed
  show "\<forall>enc rpc v data. me = Some enc \<and> sb = Some rpc \<and> enc q = Inr v \<and>
      rpc ''match_documents'' \<lparr> query_embedding = v, match_threshold = 0.5, match_count = 5 \<rparr> = Inr data
      \<longrightarrow> fst (app_get_relevant_chunks me sb fmt q) =
             Inr (map (content_with_source fmt) (filter (\<lambda>m. 0.75 < similarity m) data)) \<and>
           fst (rag_query_get_relevant_chunks me sb fmt q) = Inr (map (content_with_source fmt) data)"
    by (auto simp: app_get_rows rag_query_get_rows)
qed

theorem post_filter_in_app_only_witness:
  "fst (app_get_relevant_chunks (Some (\<lambda>query. Inr [1])) (Some (\<lambda>name params. Inr sample_rows))
          (\<lambda>score. ''?'') ''q'')
     = Inr (map (content_with_source (\<lambda>score. ''?''))
              [sample_match 0.9, sample_match 0.8, sample_match 0.76]) \<and>
   fst (rag_query_get_relevant_chunks (Some (\<lambda>query. Inr [1])) (Some (\<lambda>name params. Inr sample_rows))
          (\<lambda>score. ''?'') ''q'')
     = Inr (map (content_with_source (\<lambda>score. ''?'')) sample_rows)"
proof -
  have f: "filter (\<lambda>m. 0.75 < similarity m) sample_rows =
           [sample_match 0.9, sample_match 0.8, sample_match 0.76]"
    by (simp add: sample_rows_def sample_match_def)
  from post_filter_in_app_only[of "Some (\<lambda>query. Inr [1])" "Some (\<lambda>name params. Inr sample_rows)"
         "\<lambda>score. ''?''" "''q''"]
  have "fst (app_get_relevant_chunks (Some (\<lambda>query. Inr [1])) (Some (\<lambda>name params. Inr sample_rows))
          (\<lambda>score. ''?'') ''q'')
     = Inr (map (content_with_source (\<lambda>score. ''?'')) (filter (\<lambda>m. 0.75 < similarity m) sample_rows)) \<and>
   fst (rag_query_get_relevant_chunks (Some (\<lambda>query. Inr [1])) (Some (\<lambda>name params. Inr sample_rows))
          (\<lambda>score. ''?'') ''q'')
     = Inr (map (content_with_source (\<lambda>score. ''?'')) sample_rows)"
    by blast
  then show ?thesis by (simp only: f)
qed

theorem rag_query_keeps_low_similarity:
  "fst (rag_query_get_relevant_chunks (Some (\<lambda>query. Inr [1]))
          (Some (\<lambda>name params. Inr [\<lparr> match_source = ''a.pdf'', similarity = 0.6, match_content = ''x'' \<rparr>]))
          (\<lambda>score. ''0.600'') ''q'')
     = Inr [''[Fonte: a.pdf, Score: 0.600] x''] \<and>
   \<not> 0.75 < similarity \<lparr> match_source = ''a.pdf'', similarity = 0.6, match_content = ''x'' \<rparr>"
  by (simp add: rag_query_get_relevant_chunks_def content_with_source_def)

text \<open>
  C3. When the call to the similarity-search service raises, or the service returns no
  rows, either retrieval function returns the empty list; and \<open>get_relevant_chunks\<close> of
  \<open>app.py\<close> never lets an exception out at all.
\<close>

theorem retrieval_failure_is_empty:
  "(\<exists>out. fst (app_get_relevant_chunks me sb fmt q) = Inr out) \<and>
   (\<forall>rpc name p. sb = Some rpc \<and> (name, p) \<in> set (snd (app_get_relevant_chunks me sb fmt q)) \<and>
       ((\<exists>e. rpc name p = Inl e) \<or> rpc name p = Inr [])
       \<longrightarrow> fst (app_get_relevant_chunks me sb fmt q) = Inr []) \<and>
   (\<forall>rpc name p. sb = Some rpc \<and> (name, p) \<in> set (snd (rag_query_get_relevant_chunks me sb fmt q)) \<and>
       ((\<exists>e. rpc name p = Inl e) \<or> rpc name p = Inr [])
       \<longrightarrow> fst (rag_query_get_relevant_chunks me sb fmt q) = Inr [])"
proof (intro conjI)
  show "\<exists>out. fst (app_get_relevant_chunks me sb fmt q) = Inr out"
    by (auto simp: app_get_relevant_chunks_def Let_def split: option.splits sum.splits)
  show "\<forall>rpc name p. sb = Some rpc \<and> (name, p) \<in> set (snd (app_get_relevant_chunks me sb fmt q)) \<and>
       ((\<exists>e. rpc name p = Inl e) \<or> rpc name p = Inr [])
       \<longrightarrow> fst (app_get_relevant_chunks me sb fmt q) = Inr []"
    by (auto simp: app_get_relevant_chunks_def Let_def split: option.splits sum.splits)
  show "\<forall>rpc name p. sb = Some rpc \<and> (name, p) \<in> set (snd (rag_query_get_relevant_chunks me sb fmt q)) \<and>
       ((\<exists>e. rpc name p = Inl e) \<or> rpc name p = Inr [])
       \<longrightarrow> fst (rag_query_get_relevant_chunks me sb fmt q) = Inr []"
    by (auto simp: rag_query_get_relevant_chunks_def Let_def split: option.splits sum.splits)
qed

theorem retrieval_failure_is_empty_witness:
  "snd (app_get_relevant_chunks (Some (\<lambda>query. Inr [1]))
          (Some (\<lambda>name params. Inl (Exception ''connection refused''))) (\<lambda>score. ''?'') ''q'')
     = [(''match_documents'', \<lparr> query_embedding = [1], match_threshold = 0.5, match_count = 5 \<rparr>)] \<and>
   fst (app_get_relevant_chunks (Some (\<lambda>query. Inr [1]))
          (Some (\<lambda>name params. Inl (Exception ''connection refused''))) (\<lambda>score. ''?'') ''q'')
     = Inr [] \<and>
   fst (rag_query_get_relevant_chunks (Some (\<lambda>query. Inr [1]))
          (Some (\<lambda>name params. Inl (Exception ''connection refused''))) (\<lambda>score. ''?'') ''q'')
     = Inr []"
proof -
  let ?me = "Some (\<lambda>query :: string. Inr [1]) :: query_encoder option"
  let ?rpc = "(\<lambda>name params. Inl (Exception ''connection refused'')) :: rpc"
  let ?p = "\<lparr> query_embedding = [1], match_threshold = 0.5, match_count = 5 \<rparr>"
  have a: "snd (app_get_relevant_chunks ?me (Some ?rpc) (\<lambda>score. ''?'') ''q'') = [(''match_documents'', ?p)]"
    by (rule get_calls_made(1)[where enc = "\<lambda>query. Inr [1]" and rpc = ?rpc]) simp_all
  have b: "snd (rag_query_get_relevant_chunks ?me (Some ?rpc) (\<lambda>score. ''?'') ''q'') = [(''match_documents'', ?p)]"
    by (rule get_calls_made(2)[where enc = "\<lambda>query. Inr [1]" and rpc = ?rpc]) simp_all
  have ha: "Some ?rpc = Some ?rpc \<and>
        (''match_documents'', ?p) \<in> set (snd (app_get_relevant_chunks ?me (Some ?rpc) (\<lambda>score. ''?'') ''q'')) \<and>
        ((\<exists>e. ?rpc ''match_documents'' ?p = Inl e) \<or> ?rpc ''match_documents'' ?p = Inr [])"
    by (simp only: a) simp
  have hb: "Some ?rpc = Some ?rpc \<and>
        (''match_documents'', ?p) \<in> set (snd (rag_query_get_relevant_chunks ?me (Some ?rpc) (\<lambda>score. ''?'') ''q'')) \<and>
        ((\<exists>e. ?rpc ''match_documents'' ?p = Inl e) \<or> ?rpc ''match_documents'' ?p = Inr [])"
    by (simp only: b) simp
  from retrieval_failure_is_empty[of ?me "Some ?rpc" "\<lambda>score. ''?''" "''q''"] ha hb
  have "fst (app_get_relevant_chunks ?me (Some ?rpc) (\<lambda>score. ''?'') ''q'') = Inr [] \<and>
        fst (rag_query_get_relevant_chunks ?me (Some ?rpc) (\<lambda>score. ''?'') ''q'') = Inr []"
    by blast
  with a show ?thesis by simp
qed

lemma match_documents_length: "length (match_documents rows th k) \<le> k"
  by (simp add: match_documents_def)

lemma match_documents_sorted:
  "sorted_wrt (\<lambda>a b. similarity a \<ge> similarity b) (match_documents rows th k)"
proof -
  have "sorted (map (\<lambda>m. - similarity m)
          (sort_key (\<lambda>m. - similarity m) (filter (\<lambda>m. th \<le> similarity m) rows)))"
    by (rule sorted_sort_key)
  then have "sorted_wrt (\<lambda>a b. similarity a \<ge> similarity b)
               (sort_key (\<lambda>m. - similarity m) (filter (\<lambda>m. th \<le> similarity m) rows))"
    by (simp add: sorted_wrt_map)
  then show ?thesis
    unfolding match_documents_def by (rule sorted_wrt_take)
qed

lemma search_service_rows:
  "search_service outage scored name p = Inr data \<Longrightarrow>
   length data \<le> match_count p \<and> sorted_wrt (\<lambda>a b. similarity a \<ge> similarity b) data"
  by (auto simp: search_service_def match_documents_length match_documents_sorted
           split: option.splits)

text \<open>
  C9. Against the similarity-search service of the specification, either retrieval function
  makes at most one call, to \<open>match_documents\<close> with \<open>match_threshold\<close> 0.5 and
  \<open>match_count\<close> 5, and makes it whenever the query could be encoded; what it returns comes
  from at most 5 matches, in descending order of similarity.
\<close>

theorem retriever_request_and_bounds:
  fixes me :: "query_encoder option" and fmt :: "real \<Rightarrow> string" and q :: string
    and outage :: "rpc_params \<Rightarrow> exn option" and scored :: "vector \<Rightarrow> match list"
  defines "sb \<equiv> Some (search_service outage scored)"
  shows
   "(\<forall>enc v. me = Some enc \<and> enc q = Inr v \<longrightarrow>
       snd (app_get_relevant_chunks me sb fmt q) =
         [(''match_documents'', \<lparr> query_embedding = v, match_threshold = 0.5, match_count = 5 \<rparr>)] \<and>
       snd (rag_query_get_relevant_chunks me sb fmt q) =
         [(''match_documents'', \<lparr> query_embedding = v, match_threshold = 0.5, match_count = 5 \<rparr>)]) \<and>
    length (snd (app_get_relevant_chunks me sb fmt q)) \<le> 1 \<and>
    length (snd (rag_query_get_relevant_chunks me sb fmt q)) \<le> 1 \<and>
    (\<forall>c\<in>set (snd (app_get_relevant_chunks me sb fmt q)) \<union>
           set (snd (rag_query_get_relevant_chunks me sb fmt q)).
       fst c = ''match_documents'' \<and> match_threshold (snd c) = 0.5 \<and> match_count (snd c) = 5) \<and>
    (\<exists>ms. fst (app_get_relevant_chunks me sb fmt q) = Inr (map (content_with_source fmt) ms) \<and>
       length ms \<le> 5 \<and> sorted_wrt (\<lambda>a b. similarity a \<ge> similarity b) ms) \<and>
    (\<forall>out. fst (rag_query_get_relevant_chunks me sb fmt q) = Inr out \<longrightarrow>
       (\<exists>ms. out = map (content_with_source fmt) ms \<and>
          length ms \<le> 5 \<and> sorted_wrt (\<lambda>a b. similarity a \<ge> similarity b) ms))"
proof -
  let ?P = "\<exists>enc rpc v data. me = Some enc \<and> sb = Some rpc \<and> enc q = Inr v \<and>
    rpc ''match_documents'' \<lparr> query_embedding = v, match_threshold = 0.5, match_count = 5 \<rparr> = Inr data"
  have calls: "\<forall>enc v. me = Some enc \<and> enc q = Inr v \<longrightarrow>
       snd (app_get_relevant_chunks me sb fmt q) =
         [(''match_documents'', \<lparr> query_embedding = v, match_threshold = 0.5, match_count = 5 \<rparr>)] \<and>
       snd (rag_query_get_relevant_chunks me sb fmt q) =
         [(''match_documents'', \<lparr> query_embedding = v, match_threshold = 0.5, match_count = 5 \<rparr>)]"
    using get_calls_made[of me _ sb "search_service outage scored" q _ fmt]
    by (auto simp: sb_def)
  have once: "length (snd (app_get_relevant_chunks me sb fmt q)) \<le> 1"
    "length (snd (rag_query_get_relevant_chunks me sb fmt q)) \<le> 1"
    by (auto simp: app_get_relevant_chunks_def rag_query_get_relevant_chunks_def Let_def
             split: option.splits sum.splits)
  have params: "\<forall>c\<in>set (snd (app_get_relevant_chunks me sb fmt q)) \<union>
           set (snd (rag_query_get_relevant_chunks me sb fmt q)).
       fst c = ''match_documents'' \<and> match_threshold (snd c) = 0.5 \<and> match_count (snd c) = 5"
    using app_get_calls[of _ me sb fmt q] rag_query_get_calls[of _ me sb fmt q] by blast
  have app: "\<exists>ms. fst (app_get_relevant_chunks me sb fmt q) = Inr (map (content_with_source fmt) ms) \<and>
       length ms \<le> 5 \<and> sorted_wrt (\<lambda>a b. similarity a \<ge> similarity b) ms"
  proof (cases ?P)
    case True
    then obtain enc rpc v data where h: "me = Some enc" "sb = Some rpc" "enc q = Inr v"
      "rpc ''match_documents'' \<lparr> query_embedding = v, match_threshold = 0.5, match_count = 5 \<rparr> = Inr data"
      by blast
    from h(2,4) have d: "length data \<le> 5" "sorted_wrt (\<lambda>a b. similarity a \<ge> similarity b) data"
      using search_service_rows[of outage scored "''match_documents''"
              "\<lparr> query_embedding = v, match_threshold = 0.5, match_count = 5 \<rparr>" data]
      by (simp_all add: sb_def)
    let ?ms = "filter (\<lambda>m. 0.75 < similarity m) data"
    have "length ?ms \<le> 5" using d(1) le_trans[OF length_filter_le] by blast
    moreover have "sorted_wrt (\<lambda>a b. similarity a \<ge> similarity b) ?ms"
      using d(2) by (rule sorted_wrt_filter)
    ultimately show ?thesis using app_get_rows[OF h, of fmt] by (intro exI[of _ ?ms]) simp
  next
    case False
    show ?thesis by (rule exI[of _ "[]"]) (simp add: app_get_no_rows[OF False])
  qed
  have rq: "\<forall>out. fst (rag_query_get_relevant_chunks me sb fmt q) = Inr out \<longrightarrow>
       (\<exists>ms. out = map (content_with_source fmt) ms \<and>
          length ms \<le> 5 \<and> sorted_wrt (\<lambda>a b. similarity a \<ge> similarity b) ms)"
  proof (cases ?P)
    case True
    then obtain enc rpc v data where h: "me = Some enc" "sb = Some rpc" "enc q = Inr v"
      "rpc ''match_documents'' \<lparr> query_embedding = v, match_threshold = 0.5, match_count = 5 \<rparr> = Inr data"
      by blast
    from h(2,4) have d: "length data \<le> 5" "sorted_wrt (\<lambda>a b. similarity a \<ge> similarity b) data"
      using search_service_rows[of outage scored "''match_documents''"
              "\<lparr> query_embedding = v, match_threshold = 0.5, match_count = 5 \<rparr>" data]
      by (simp_all add: sb_def)
    show ?thesis using d rag_query_get_rows[OF h, of fmt] by auto
  next
    case False
    from rag_query_get_no_rows[OF False, of fmt] show ?thesis by auto
  qed
  from calls once params app rq show ?thesis by blast
qed

theorem retriever_request_and_bounds_witness:
  "snd (app_get_relevant_chunks (Some (\<lambda>query. Inr [1]))
          (Some (search_service (\<lambda>params. None) (\<lambda>v. sample_rows))) (\<lambda>score. ''?'') ''q'')
     = [(''match_documents'', \<lparr> query_embedding = [1], match_threshold = 0.5, match_count = 5 \<rparr>)] \<and>
   snd (rag_query_get_relevant_chunks (Some (\<lambda>query. Inr [1]))
          (Some (search_service (\<lambda>params. None) (\<lambda>v. sample_rows))) (\<lambda>score. ''?'') ''q'')
     = [(''match_documents'', \<lparr> query_embedding = [1], match_threshold = 0.5, match_count = 5 \<rparr>)]"
proof -
  from retriever_request_and_bounds[where me = "Some (\<lambda>query. Inr [1])" and q = "''q''"
         and outage = "\<lambda>params. None" and scored = "\<lambda>v. sample_rows" and fmt = "\<lambda>score. ''?''"]
  have "\<forall>enc v. Some (\<lambda>query :: string. Inr [1 :: real]) = Some enc \<and> enc ''q'' = Inr v \<longrightarrow>
     snd (app_get_relevant_chunks (Some (\<lambda>query. Inr [1]))
          (Some (search_service (\<lambda>params. None) (\<lambda>v. sample_rows))) (\<lambda>score. ''?'') ''q'')
       = [(''match_documents'', \<lparr> query_embedding = v, match_threshold = 0.5, match_count = 5 \<rparr>)] \<and>
     snd (rag_query_get_relevant_chunks (Some (\<lambda>query. Inr [1]))
          (Some (search_service (\<lambda>params. None) (\<lambda>v. sample_rows))) (\<lambda>score. ''?'') ''q'')
       = [(''match_documents'', \<lparr> query_embedding = v, match_threshold = 0.5, match_count = 5 \<rparr>)]"
    by blast
  then show ?thesis by simp
qed

section \<open>Generation\<close>

lemma app_generate_None:
  "app_generate_rag_answer None q chunks = ((app_client_error, ''ERROR''), [])"
  by (simp add: app_generate_rag_answer_def)

lemma rag_query_generate_None:
  "rag_query_generate_rag_answer None q chunks = (rag_query_client_error, [])"
  by (simp add: rag_query_generate_rag_answer_def)

text \<open>With a client, exactly one generation call is made; the lemmas below name it.\<close>

lemma app_generate_call:
  "snd (app_generate_rag_answer (Some g) q chunks) =
     [hd (snd (app_generate_rag_answer (Some g) q chunks))]"
  by (simp add: app_generate_rag_answer_def Let_def split: sum.splits)

lemma app_generate_result:
  "fst (app_generate_rag_answer (Some g) q chunks) =
     (case g (hd (snd (app_generate_rag_answer (Some g) q chunks))) of
        Inr answer \<Rightarrow> (answer, if chunks \<noteq> [] then ''RAG'' else ''FALLBACK'')
      | Inl e \<Rightarrow> (llm_error, ''ERROR''))"
  by (simp add: app_generate_rag_answer_def Let_def split: sum.splits)

lemma app_generate_temperature:
  "temperature (hd (snd (app_generate_rag_answer (Some g) q chunks))) =
     (if chunks \<noteq> [] then 0.2 else 0.4)"
  by (simp add: app_generate_rag_answer_def Let_def split: sum.splits)

lemma rag_query_generate_call:
  "snd (rag_query_generate_rag_answer (Some g) q chunks) =
     [hd (snd (rag_query_generate_rag_answer (Some g) q chunks))]"
  by (simp add: rag_query_generate_rag_answer_def Let_def split: sum.splits)

lemma rag_query_generate_result:
  "fst (rag_query_generate_rag_answer (Some g) q chunks) =
     (case g (hd (snd (rag_query_generate_rag_answer (Some g) q chunks))) of
        Inr answer \<Rightarrow> answer
      | Inl e \<Rightarrow> llm_error)"
  by (simp add: rag_query_generate_rag_answer_def Let_def split: sum.splits)

lemma rag_query_generate_temperature:
  "temperature (hd (snd (rag_query_generate_rag_answer (Some g) q chunks))) = 0.2"
  by (simp add: rag_query_generate_rag_answer_def Let_def split: sum.splits)

text \<open>
  The page of \<open>app.py\<close> reaches \<open>generate_rag_answer\<close> only with an initialised client
  and a prompt, and shows the text and the label it returns.
\<close>

lemma app_respond_generates:
  assumes "app_respond book_icon bulb_icon me sb c fmt chat_input = Inr (Replied rep)"
  shows "\<exists>g p. c = Some g \<and> chat_input = Some p \<and> p \<noteq> [] \<and>
           fst (app_get_relevant_chunks me sb fmt p) = Inr (reply_chunks rep) \<and>
           app_generate_rag_answer (Some g) p (reply_chunks rep) =
             ((reply_text rep, reply_source rep), reply_gen_calls rep)"
proof -
  from assms obtain g where c: "c = Some g"
    by (cases c) (auto simp: app_respond_def)
  from assms obtain p where p: "chat_input = Some p" "p \<noteq> []"
    by (cases chat_input) (auto simp: app_respond_def split: if_splits)
  obtain got calls where r: "app_get_relevant_chunks me sb fmt p = (got, calls)"
    by (cases "app_get_relevant_chunks me sb fmt p")
  obtain reply label requests where
    a: "app_generate_rag_answer (Some g) p (projr got) = ((reply, label), requests)"
    by (cases "app_generate_rag_answer (Some g) p (projr got)") auto
  from assms c p r obtain chunks where got: "got = Inr chunks"
    by (cases got) (auto simp: app_respond_def split: if_splits)
  from assms c p r got a
  have "reply_chunks rep = chunks \<and> reply_text rep = reply \<and> reply_source rep = label \<and>
        reply_gen_calls rep = requests"
    by (auto simp: app_respond_def Let_def split: if_splits)
  with c p r got a show ?thesis by auto
qed

text \<open>
  A pass of the chat loop of \<open>src/rag_query.py\<close> calls \<open>generate_rag_answer\<close> only with the
  non-empty chunks it retrieved; without chunks it makes no generation call.
\<close>

lemma rag_query_turn_generates:
  assumes "rag_query_turn me sb c fmt line = Inr report"
  shows "(turn_chunks report = [] \<and> turn_gen_calls report = []) \<or>
         (turn_chunks report \<noteq> [] \<and>
          fst (rag_query_get_relevant_chunks me sb fmt (strip line)) = Inr (turn_chunks report) \<and>
          turn_outcome report =
            Answered (fst (rag_query_generate_rag_answer c (strip line) (turn_chunks report))) \<and>
          turn_gen_calls report =
            snd (rag_query_generate_rag_answer c (strip line) (turn_chunks report)))"
proof -
  obtain got calls where r: "rag_query_get_relevant_chunks me sb fmt (strip line) = (got, calls)"
    by (cases "rag_query_get_relevant_chunks me sb fmt (strip line)")
  show ?thesis
  proof (cases got)
    case (Inl e)
    with assms r show ?thesis
      by (auto simp: rag_query_turn_def Let_def split: if_splits)
  next
    case (Inr chunks)
    obtain final_answer requests where
      a: "rag_query_generate_rag_answer c (strip line) chunks = (final_answer, requests)"
      by (cases "rag_query_generate_rag_answer c (strip line) chunks")
    from assms r Inr a show ?thesis
      by (auto simp: rag_query_turn_def Let_def split: if_splits)
  qed
qed

text \<open>
  C2, as the code has it. For every query answered by \<open>app.py\<close> (its client is
  initialised, or the page stops before any query), \<open>generate_rag_answer\<close> makes one
  generation call and returns the answer text together with a label: the label is \<open>ERROR\<close>
  exactly when that call fails, whatever the matches; it is \<open>RAG\<close> exactly when the call
  succeeds and the matches are non-empty, \<open>FALLBACK\<close> exactly when it succeeds and they are
  empty. \<open>generate_rag_answer\<close> of \<open>src/rag_query.py\<close> returns the answer text alone, with
  no label: the reply of its one call, or the fixed error message when the call fails.
\<close>

theorem answer_mode:
  fixes g :: llm and q :: string and chunks :: "string list"
  defines "res \<equiv> app_generate_rag_answer (Some g) q chunks"
  defines "answer \<equiv> fst (fst res)" and "mode \<equiv> snd (fst res)" and "calls \<equiv> snd res"
  shows
    "(mode = ''RAG'' \<or> mode = ''FALLBACK'' \<or> mode = ''ERROR'') \<and>
     (\<exists>r. calls = [r] \<and>
        (mode = ''ERROR'' \<longleftrightarrow> (\<exists>e. g r = Inl e)) \<and>
        (mode = ''RAG'' \<longleftrightarrow> chunks \<noteq> [] \<and> g r = Inr answer) \<and>
        (mode = ''FALLBACK'' \<longleftrightarrow> chunks = [] \<and> g r = Inr answer)) \<and>
     (\<exists>r. snd (rag_query_generate_rag_answer (Some g) q chunks) = [r] \<and>
        fst (rag_query_generate_rag_answer (Some g) q chunks) =
          (case g r of Inr reply \<Rightarrow> reply | Inl e \<Rightarrow> llm_error))"
proof -
  obtain r where calls: "calls = [r]" and
    fst_res: "fst res = (case g r of
        Inr reply \<Rightarrow> (reply, if chunks \<noteq> [] then ''RAG'' else ''FALLBACK'')
      | Inl e \<Rightarrow> (llm_error, ''ERROR''))"
    unfolding calls_def res_def
    using app_generate_call[of g q chunks] app_generate_result[of g q chunks] by blast
  have rq: "\<exists>r. snd (rag_query_generate_rag_answer (Some g) q chunks) = [r] \<and>
        fst (rag_query_generate_rag_answer (Some g) q chunks) =
          (case g r of Inr reply \<Rightarrow> reply | Inl e \<Rightarrow> llm_error)"
    using rag_query_generate_call[of g q chunks] rag_query_generate_result[of g q chunks] by blast
  have app: "(mode = ''RAG'' \<or> mode = ''FALLBACK'' \<or> mode = ''ERROR'') \<and>
        (mode = ''ERROR'' \<longleftrightarrow> (\<exists>e. g r = Inl e)) \<and>
        (mode = ''RAG'' \<longleftrightarrow> chunks \<noteq> [] \<and> g r = Inr answer) \<and>
        (mode = ''FALLBACK'' \<longleftrightarrow> chunks = [] \<and> g r = Inr answer)"
  proof (cases "g r")
    case (Inl e)
    with fst_res have "mode = ''ERROR''"
      by (simp add: mode_def)
    with Inl show ?thesis by simp
  next
    case (Inr reply)
    with fst_res have "mode = (if chunks \<noteq> [] then ''RAG'' else ''FALLBACK'')"
      and "answer = reply"
      by (simp_all add: mode_def answer_def)
    with Inr show ?thesis by simp
  qed
  have disj: "mode = ''RAG'' \<or> mode = ''FALLBACK'' \<or> mode = ''ERROR''"
    using app by (rule conjunct1)
  have ex: "\<exists>r. calls = [r] \<and>
        (mode = ''ERROR'' \<longleftrightarrow> (\<exists>e. g r = Inl e)) \<and>
        (mode = ''RAG'' \<longleftrightarrow> chunks \<noteq> [] \<and> g r = Inr answer) \<and>
        (mode = ''FALLBACK'' \<longleftrightarrow> chunks = [] \<and> g r = Inr answer)"
    using calls app[THEN conjunct2] by (intro exI[of _ r] conjI) simp_all
  show ?thesis
    by (intro conjI) (rule disj ex rq)+
qed

theorem answer_mode_witness:
  "snd (fst (app_generate_rag_answer (Some (\<lambda>request. Inr ''ok'')) ''q'' [])) = ''FALLBACK'' \<and>
   snd (fst (app_generate_rag_answer (Some (\<lambda>request. Inr ''ok'')) ''q'' [''[Fonte: a.pdf, Score: 0.900] x'']))
     = ''RAG'' \<and>
   snd (fst (app_generate_rag_answer (Some (\<lambda>request. Inl (Exception ''503''))) ''q''
              [''[Fonte: a.pdf, Score: 0.900] x''])) = ''ERROR'' \<and>
   fst (rag_query_generate_rag_answer (Some (\<lambda>request. Inr ''ok'')) ''q''
          [''[Fonte: a.pdf, Score: 0.900] x'']) = ''ok''"
  using answer_mode[of "\<lambda>request. Inr ''ok''" "''q''" "[]"]
        answer_mode[of "\<lambda>request. Inr ''ok''" "''q''" "[''[Fonte: a.pdf, Score: 0.900] x'']"]
        answer_mode[of "\<lambda>request. Inl (Exception ''503'')" "''q''" "[''[Fonte: a.pdf, Score: 0.900] x'']"]
  by auto

theorem rag_query_returns_no_label:
  "fst (rag_query_generate_rag_answer (Some (\<lambda>request. Inr ''ok'')) ''q''
          [''[Fonte: a.pdf, Score: 0.900] x'']) = ''ok'' \<and>
   fst (rag_query_generate_rag_answer (Some (\<lambda>request. Inl (Exception ''503''))) ''q''
          [''[Fonte: a.pdf, Score: 0.900] x'']) = llm_error \<and>
   fst (rag_query_generate_rag_answer (Some (\<lambda>request. Inr llm_error)) ''q''
          [''[Fonte: a.pdf, Score: 0.900] x'']) = llm_error \<and>
   map_sum id turn_outcome
     (rag_query_turn (Some (\<lambda>query. Inr [1]))
        (Some (\<lambda>name params.
           Inr [\<lparr> match_source = ''a.pdf'', similarity = 0.9, match_content = ''x'' \<rparr>]))
        (Some (\<lambda>request. Inl (Exception ''503''))) (\<lambda>score. ''0.900'') ''insulina'')
     = Inr (Answered llm_error)"
proof -
  have s: "strip ''insulina'' = ''insulina''"
    by code_simp
  have l: "lower ''insulina'' \<notin> set [''sair'', ''exit'', ''quit'']"
    by code_simp
  have turn: "map_sum id turn_outcome
     (rag_query_turn (Some (\<lambda>query. Inr [1]))
        (Some (\<lambda>name params.
           Inr [\<lparr> match_source = ''a.pdf'', similarity = 0.9, match_content = ''x'' \<rparr>]))
        (Some (\<lambda>request. Inl (Exception ''503''))) (\<lambda>score. ''0.900'') ''insulina'')
     = Inr (Answered llm_error)"
    using l
    by (simp add: rag_query_turn_def s rag_query_get_relevant_chunks_def K_CHUNKS_def
          rag_query_generate_rag_answer_def)
  have fn: "fst (rag_query_generate_rag_answer (Some (\<lambda>request. Inr ''ok'')) ''q''
          [''[Fonte: a.pdf, Score: 0.900] x'']) = ''ok'' \<and>
   fst (rag_query_generate_rag_answer (Some (\<lambda>request. Inl (Exception ''503''))) ''q''
          [''[Fonte: a.pdf, Score: 0.900] x'']) = llm_error \<and>
   fst (rag_query_generate_rag_answer (Some (\<lambda>request. Inr llm_error)) ''q''
          [''[Fonte: a.pdf, Score: 0.900] x'']) = llm_error"
    by (simp add: rag_query_generate_rag_answer_def)
  from fn turn show ?thesis by (intro conjI) simp_all
qed

text \<open>
  C8. Every generation call of \<open>app.py\<close> uses temperature 0.2 when the matches are
  non-empty (label \<open>RAG\<close>) and 0.4 when they are empty (label \<open>FALLBACK\<close>). In
  \<open>src/rag_query.py\<close> the generation call uses 0.2 on the non-empty matches it is given,
  and a pass of the chat loop that retrieves nothing makes no generation call at all:
  there is no fallback there.
\<close>

theorem generation_temperature:
  "(\<forall>g. c = Some g \<longrightarrow>
      map temperature (snd (app_generate_rag_answer c q chunks)) =
        [if chunks \<noteq> [] then 0.2 else 0.4]) \<and>
   (snd (fst (app_generate_rag_answer c q chunks)) = ''RAG'' \<longrightarrow>
      map temperature (snd (app_generate_rag_answer c q chunks)) = [0.2]) \<and>
   (snd (fst (app_generate_rag_answer c q chunks)) = ''FALLBACK'' \<longrightarrow>
      map temperature (snd (app_generate_rag_answer c q chunks)) = [0.4]) \<and>
   (\<forall>g. c = Some g \<and> chunks \<noteq> [] \<longrightarrow>
      map temperature (snd (rag_query_generate_rag_answer c q chunks)) = [0.2]) \<and>
   (\<forall>report. rag_query_turn me sb c fmt line = Inr report \<longrightarrow>
      (turn_chunks report = [] \<longrightarrow> turn_gen_calls report = []) \<and>
      (\<forall>g. c = Some g \<and> turn_chunks report \<noteq> [] \<longrightarrow>
         map temperature (turn_gen_calls report) = [0.2]))"
proof -
  have t': "map temperature (snd (rag_query_generate_rag_answer (Some g) p cs)) = [0.2]" for g p cs
    by (subst rag_query_generate_call) (simp add: rag_query_generate_temperature)
  have turn: "(turn_chunks report = [] \<longrightarrow> turn_gen_calls report = []) \<and>
      (\<forall>g. c = Some g \<and> turn_chunks report \<noteq> [] \<longrightarrow>
         map temperature (turn_gen_calls report) = [0.2])"
    if "rag_query_turn me sb c fmt line = Inr report" for report
    using rag_query_turn_generates[OF that] t' by auto
  have fn: "(\<forall>g. c = Some g \<longrightarrow>
      map temperature (snd (app_generate_rag_answer c q chunks)) =
        [if chunks \<noteq> [] then 0.2 else 0.4]) \<and>
   (snd (fst (app_generate_rag_answer c q chunks)) = ''RAG'' \<longrightarrow>
      map temperature (snd (app_generate_rag_answer c q chunks)) = [0.2]) \<and>
   (snd (fst (app_generate_rag_answer c q chunks)) = ''FALLBACK'' \<longrightarrow>
      map temperature (snd (app_generate_rag_answer c q chunks)) = [0.4]) \<and>
   (\<forall>g. c = Some g \<and> chunks \<noteq> [] \<longrightarrow>
      map temperature (snd (rag_query_generate_rag_answer c q chunks)) = [0.2])"
  proof (cases c)
    case None
    then show ?thesis by (simp add: app_generate_None)
  next
    case (Some g)
    have t: "map temperature (snd (app_generate_rag_answer (Some g) q chunks)) =
             [if chunks \<noteq> [] then 0.2 else 0.4]"
      by (subst app_generate_call) (simp add: app_generate_temperature)
    have m: "snd (fst (app_generate_rag_answer (Some g) q chunks)) = ''RAG'' \<longrightarrow> chunks \<noteq> []"
      by (simp add: app_generate_result split: sum.splits)
    have m': "snd (fst (app_generate_rag_answer (Some g) q chunks)) = ''FALLBACK'' \<longrightarrow> chunks = []"
      by (simp add: app_generate_result split: sum.splits)
    from t t'[of g q chunks] m m' show ?thesis unfolding Some by simp
  qed
  from fn turn show ?thesis by simp
qed

theorem generation_temperature_witness:
  "map temperature (snd (app_generate_rag_answer (Some (\<lambda>request. Inr ''ok'')) ''q'' [])) = [0.4] \<and>
   map temperature
     (snd (app_generate_rag_answer (Some (\<lambda>request. Inr ''ok'')) ''q'' [''[Fonte: a.pdf, Score: 0.900] x'']))
     = [0.2] \<and>
   map temperature
     (snd (rag_query_generate_rag_answer (Some (\<lambda>request. Inr ''ok'')) ''q''
        [''[Fonte: a.pdf, Score: 0.900] x''])) = [0.2] \<and>
   map_sum id (\<lambda>report. (turn_outcome report, map temperature (turn_gen_calls report)))
     (rag_query_turn (Some (\<lambda>query. Inr [1]))
        (Some (\<lambda>name params.
           Inr [\<lparr> match_source = ''a.pdf'', similarity = 0.9, match_content = ''x'' \<rparr>]))
        (Some (\<lambda>request. Inr ''ok'')) (\<lambda>score. ''0.900'') ''insulina'')
     = Inr (Answered ''ok'', [0.2]) \<and>
   rag_query_turn (Some (\<lambda>query. Inr [1])) (Some (\<lambda>name params. Inr []))
       (Some (\<lambda>request. Inr ''ok'')) (\<lambda>score. ''0.900'') ''insulina''
     = Inr \<lparr> turn_outcome = No_Results, turn_chunks = [],
             turn_rpc_calls =
               [(''match_documents'',
                 \<lparr> query_embedding = [1], match_threshold = 0.5, match_count = 5 \<rparr>)],
             turn_gen_calls = [] \<rparr>"
proof -
  let ?me = "Some (\<lambda>query :: string. Inr [1]) :: query_encoder option"
  let ?ok = "Some (\<lambda>request :: gen_request. Inr ''ok'') :: llm option"
  let ?row = "Some (\<lambda>name params.
                Inr [\<lparr> match_source = ''a.pdf'', similarity = 0.9, match_content = ''x'' \<rparr>])
              :: rpc option"
  let ?none = "Some (\<lambda>name params. Inr []) :: rpc option"
  let ?fmt = "\<lambda>score :: real. ''0.900''"
  let ?x = "[''[Fonte: a.pdf, Score: 0.900] x'']"
  have s: "strip ''insulina'' = ''insulina''"
    by code_simp
  have l: "lower ''insulina'' \<notin> set [''sair'', ''exit'', ''quit'']"
    by code_simp
  from generation_temperature[where c = ?ok and q = "''q''" and chunks = "[]"]
  have a: "map temperature (snd (app_generate_rag_answer ?ok ''q'' [])) = [0.4]"
    by simp
  from generation_temperature[where c = ?ok and q = "''q''" and chunks = ?x]
  have b: "map temperature (snd (app_generate_rag_answer ?ok ''q'' ?x)) = [0.2] \<and>
           map temperature (snd (rag_query_generate_rag_answer ?ok ''q'' ?x)) = [0.2]"
    by simp
  have empty: "rag_query_turn ?me ?none ?ok ?fmt ''insulina''
     = Inr \<lparr> turn_outcome = No_Results, turn_chunks = [],
             turn_rpc_calls =
               [(''match_documents'',
                 \<lparr> query_embedding = [1], match_threshold = 0.5, match_count = 5 \<rparr>)],
             turn_gen_calls = [] \<rparr>"
    using l by (simp add: rag_query_turn_def s rag_query_get_relevant_chunks_def K_CHUNKS_def)
  have got: "map_sum id (\<lambda>report. (turn_outcome report, turn_chunks report))
               (rag_query_turn ?me ?row ?ok ?fmt ''insulina'') = Inr (Answered ''ok'', ?x)"
    using l
    by (simp add: rag_query_turn_def s rag_query_get_relevant_chunks_def K_CHUNKS_def
          rag_query_generate_rag_answer_def content_with_source_def)
  then obtain report where r: "rag_query_turn ?me ?row ?ok ?fmt ''insulina'' = Inr report"
    and o: "turn_outcome report = Answered ''ok''" and ne: "turn_chunks report \<noteq> []"
    by (cases "rag_query_turn ?me ?row ?ok ?fmt ''insulina''") auto
  from generation_temperature[where c = ?ok and me = ?me and sb = ?row and fmt = ?fmt
         and line = "''insulina''"] r ne
  have "map temperature (turn_gen_calls report) = [0.2]"
    by blast
  with r o have turn: "map_sum id (\<lambda>report. (turn_outcome report, map temperature (turn_gen_calls report)))
     (rag_query_turn ?me ?row ?ok ?fmt ''insulina'') = Inr (Answered ''ok'', [0.2])"
    by simp
  from a b turn empty show ?thesis by (intro conjI) simp_all
qed

end
